theory Spec2Isabelle
  imports Main
begin

section \<open>JavaScript values\<close>

text \<open>
  The builder of \<^verbatim>\<open>src/app/Helpers/DatatableBuilder.ts\<close> is dynamically typed: every
  request it receives is an arbitrary JSON-like value. The values are modelled by the
  datatype below. Strings are lists of 8-bit characters, one per code unit; an object is
  the association list of its own properties in enumeration order, with distinct keys.
  Functions are not values of the model, so a read that would give an inherited method
  (of \<open>Object.prototype\<close> and friends) has no result here; the conversion of an object
  to a primitive is modelled, where an own property \<open>toString\<close> hides the inherited
  method and the conversion throws.

  A number is \<open>NaN\<close> or an integer. \<open>Num n\<close> stands for the double \<open>n\<close>, and it does so
  exactly only while \<open>n\<close> is a safe integer, of magnitude at most \<open>2 ^ 53 - 1\<close>: there
  \<open>parseInt\<close>, \<open>String\<close> and \<open>+\<close> are exact. Beyond that range the source computes with
  rounded doubles and exponent notation, which this model does not compute: every
  operation that would produce such a number, or the text of one, has the outcome
  \<open>Unmodelled\<close> instead of a result. Truthiness and the comparisons with \<open>0\<close> need the
  sign alone, which rounding keeps, and are computed on every integer. Fractions and
  infinities are not values of the model.

  An outcome is a result (\<open>Inr\<close>) or one of three failures (\<open>Inl\<close>): the two exceptions
  the code can throw, \<open>TypeError\<close> (a property read on \<open>undefined\<close> or \<open>null\<close>, a
  conversion of an object that cannot be converted) and \<open>RangeError\<close> (\<open>toISOString\<close>
  on an invalid date), and \<open>Unmodelled\<close>, which is no behaviour of the code but the
  limit of the model just described: there the code goes on, with a value that this
  model does not have.
\<close>

datatype error = TypeError | RangeError | Unmodelled

definition and_then :: "error + 'a \<Rightarrow> ('a \<Rightarrow> error + 'b) \<Rightarrow> error + 'b" where
  "and_then m f = (case m of Inl e \<Rightarrow> Inl e | Inr x \<Rightarrow> f x)"

datatype jsnum = NaN | Num int

datatype jsval =
    JUndefined
  | JNull
  | JBool bool
  | JNumber jsnum
  | JString string
  | JArray "jsval list"
  | JObject "(string \<times> jsval) list"

fun typeof :: "jsval \<Rightarrow> string" where
  "typeof JUndefined = ''undefined''"
| "typeof JNull = ''object''"
| "typeof (JBool b) = ''boolean''"
| "typeof (JNumber n) = ''number''"
| "typeof (JString s) = ''string''"
| "typeof (JArray xs) = ''object''"
| "typeof (JObject kvs) = ''object''"

fun truthy :: "jsval \<Rightarrow> bool" where
  "truthy JUndefined = False"
| "truthy JNull = False"
| "truthy (JBool b) = b"
| "truthy (JNumber NaN) = False"
| "truthy (JNumber (Num n)) = (n \<noteq> 0)"
| "truthy (JString s) = (s \<noteq> [])"
| "truthy (JArray xs) = True"
| "truthy (JObject kvs) = True"

definition MAX_SAFE_INTEGER :: int where
  "MAX_SAFE_INTEGER = 2 ^ 53 - 1"

definition safe_integer :: "int \<Rightarrow> bool" where
  "safe_integer n = (- MAX_SAFE_INTEGER \<le> n \<and> n \<le> MAX_SAFE_INTEGER)"

text \<open>
  The decimal digits of an integer. \<open>String(n)\<close> is this text for a safe integer; for
  larger numbers it is the shortest text that reads back as the same double, in exponent
  notation from \<open>1e21\<close>, and is not modelled.
\<close>

definition digit_char :: "nat \<Rightarrow> char" where
  "digit_char d = char_of (48 + d)"

fun string_of_nat :: "nat \<Rightarrow> string" where
  "string_of_nat n =
     (if n < 10 then [digit_char n] else string_of_nat (n div 10) @ [digit_char (n mod 10)])"

declare string_of_nat.simps [simp del]

definition decimal :: "int \<Rightarrow> string" where
  "decimal n = (if n < 0 then CHR ''-'' # string_of_nat (nat (- n)) else string_of_nat (nat n))"

fun string_of_num :: "jsnum \<Rightarrow> error + string" where
  "string_of_num NaN = Inr ''NaN''"
| "string_of_num (Num n) = (if safe_integer n then Inr (decimal n) else Inl Unmodelled)"

text \<open>
  \<open>ToString\<close>. An array is joined with commas, \<open>undefined\<close> and \<open>null\<close> elements giving
  the empty string; a plain object gives \<open>[object Object]\<close>, unless an own property
  \<open>toString\<close> (never callable in a JSON value) makes the conversion throw.
\<close>

fun toString :: "jsval \<Rightarrow> error + string"
  and join_elems :: "jsval list \<Rightarrow> error + string" where
  "toString JUndefined = Inr ''undefined''"
| "toString JNull = Inr ''null''"
| "toString (JBool b) = Inr (if b then ''true'' else ''false'')"
| "toString (JNumber n) = string_of_num n"
| "toString (JString s) = Inr s"
| "toString (JArray xs) = join_elems xs"
| "toString (JObject kvs) =
     (if ''toString'' \<in> set (map fst kvs) then Inl TypeError else Inr ''[object Object]'')"
| "join_elems [] = Inr []"
| "join_elems (x # xs) =
     (case (if x = JUndefined \<or> x = JNull then Inr [] else toString x) of
        Inl e \<Rightarrow> Inl e
      | Inr a \<Rightarrow>
          (if xs = [] then Inr a
           else (case join_elems xs of Inl e \<Rightarrow> Inl e | Inr b \<Rightarrow> Inr (a @ '','' @ b))))"

text \<open>
  Property read \<open>v.k\<close> for the keys the source names: \<open>search\<close>, \<open>value\<close>, \<open>columns\<close>,
  \<open>order\<close>, \<open>column\<close>, \<open>dir\<close>, \<open>name\<close>, \<open>searchable\<close>, \<open>orderable\<close>, \<open>start\<close>,
  \<open>length\<close>, \<open>draw\<close> and \<open>0\<close>. It throws on \<open>undefined\<close> and \<open>null\<close>; strings and arrays
  have \<open>length\<close> and their indices; and of these keys only \<open>search\<close> names an inherited
  member, the method \<open>String.prototype.search\<close> of a string.
\<close>

definition index_of_key :: "string \<Rightarrow> nat \<Rightarrow> nat option" where
  "index_of_key k n = find (\<lambda>i. string_of_nat i = k) [0..<n]"

fun get :: "jsval \<Rightarrow> string \<Rightarrow> error + jsval" where
  "get JUndefined k = Inl TypeError"
| "get JNull k = Inl TypeError"
| "get (JBool b) k = Inr JUndefined"
| "get (JNumber n) k = Inr JUndefined"
| "get (JString s) k =
     (if k = ''length'' then Inr (JNumber (Num (int (length s))))
      else if k = ''search'' then Inl Unmodelled
      else (case index_of_key k (length s) of
              Some i \<Rightarrow> Inr (JString [s ! i])
            | None \<Rightarrow> Inr JUndefined))"
| "get (JArray xs) k =
     (if k = ''length'' then Inr (JNumber (Num (int (length xs))))
      else (case index_of_key k (length xs) of
              Some i \<Rightarrow> Inr (xs ! i)
            | None \<Rightarrow> Inr JUndefined))"
| "get (JObject kvs) k =
     (case map_of kvs k of Some v \<Rightarrow> Inr v | None \<Rightarrow> Inr JUndefined)"

text \<open>White space and decimal digits.\<close>

definition is_ws :: "char \<Rightarrow> bool" where
  "is_ws c = (c \<in> set [CHR 0x09, CHR 0x0A, CHR 0x0B, CHR 0x0C, CHR 0x0D, CHR 0x20, CHR 0xA0])"

definition is_digit :: "char \<Rightarrow> bool" where
  "is_digit c = (48 \<le> (of_char c :: nat) \<and> (of_char c :: nat) \<le> 57)"

definition nat_of_digits :: "string \<Rightarrow> nat" where
  "nat_of_digits ds = foldl (\<lambda>a c. 10 * a + (of_char c - 48)) 0 ds"

text \<open>
  Property read \<open>v[k]\<close> for a key computed from the request. A key made of digits names
  no inherited member, and the read is the one above; for any other key that is not an
  own property the source may find an inherited member, which is not modelled.
\<close>

definition get_by_key :: "jsval \<Rightarrow> string \<Rightarrow> error + jsval" where
  "get_by_key v k =
     (case get v k of
        Inr JUndefined \<Rightarrow>
          (if k \<noteq> [] \<and> list_all is_digit k then Inr JUndefined else Inl Unmodelled)
      | x \<Rightarrow> x)"

text \<open>
  \<open>parseInt(v, 10)\<close>: the value as a string, leading white space skipped, an optional
  sign, then the longest prefix of decimal digits; \<open>NaN\<close> when there is none. The integer
  the digits denote is the result while it is a safe integer; beyond, the source gets the
  nearest double (or an implementation's approximation of it, or \<open>Infinity\<close>).
\<close>

definition parseInt_str :: "string \<Rightarrow> error + jsnum" where
  "parseInt_str s =
     (let t = dropWhile is_ws s;
          neg = (t \<noteq> [] \<and> hd t = CHR ''-'');
          u = (if t \<noteq> [] \<and> (hd t = CHR ''-'' \<or> hd t = CHR ''+'') then tl t else t);
          ds = takeWhile is_digit u;
          n = (if neg then - 1 else 1) * int (nat_of_digits ds)
      in if ds = [] then Inr NaN
         else if safe_integer n then Inr (Num n)
         else Inl Unmodelled)"

definition parseInt :: "jsval \<Rightarrow> error + jsnum" where
  "parseInt v = and_then (toString v) parseInt_str"

text \<open>
  The comparison \<open>v < 0\<close>. The value is converted to a primitive (an array or object
  through its string), then to a number. A string is negative when, trimmed, it is a
  minus sign followed by an unsigned decimal literal (or \<open>Infinity\<close>) whose value does
  not round to zero, that is, exceeds \<open>2 ^ -1075\<close>. Only the sign is computed, and
  rounding to a double keeps it.
\<close>

definition trim :: "string \<Rightarrow> string" where
  "trim s = rev (dropWhile is_ws (rev (dropWhile is_ws s)))"

definition exponent_of :: "string \<Rightarrow> int option" where
  "exponent_of r =
     (if r = [] then Some 0
      else if hd r = CHR ''e'' \<or> hd r = CHR ''E'' then
        (let r1 = tl r;
             neg = (r1 \<noteq> [] \<and> hd r1 = CHR ''-'');
             ds = (if r1 \<noteq> [] \<and> (hd r1 = CHR ''-'' \<or> hd r1 = CHR ''+'') then tl r1 else r1)
         in if ds \<noteq> [] \<and> list_all is_digit ds
            then Some ((if neg then - 1 else 1) * int (nat_of_digits ds))
            else None)
      else None)"

definition unsigned_nonzero :: "string \<Rightarrow> bool" where
  "unsigned_nonzero r =
     (if r = ''Infinity'' then True
      else
        (let ip = takeWhile is_digit r;
             r1 = dropWhile is_digit r;
             hasdot = (r1 \<noteq> [] \<and> hd r1 = CHR ''.'');
             r2 = (if hasdot then tl r1 else r1);
             fp = (if hasdot then takeWhile is_digit r2 else []);
             r3 = (if hasdot then dropWhile is_digit r2 else r2)
         in if ip = [] \<and> fp = [] then False
            else (case exponent_of r3 of
                    None \<Rightarrow> False
                  | Some e \<Rightarrow>
                      (let m = nat_of_digits (ip @ fp);
                           e' = e - int (length fp)
                       in 0 < m \<and> (0 \<le> e' \<or> 10 ^ nat (- e') < int m * 2 ^ 1075)))))"

definition str_negative :: "string \<Rightarrow> bool" where
  "str_negative s =
     (let t = trim s in t \<noteq> [] \<and> hd t = CHR ''-'' \<and> unsigned_nonzero (tl t))"

fun lt_zero :: "jsval \<Rightarrow> error + bool" where
  "lt_zero JUndefined = Inr False"
| "lt_zero JNull = Inr False"
| "lt_zero (JBool b) = Inr False"
| "lt_zero (JNumber NaN) = Inr False"
| "lt_zero (JNumber (Num n)) = Inr (n < 0)"
| "lt_zero (JString s) = Inr (str_negative s)"
| "lt_zero (JArray xs) = and_then (toString (JArray xs)) (\<lambda>t. Inr (str_negative t))"
| "lt_zero (JObject kvs) = and_then (toString (JObject kvs)) (\<lambda>t. Inr (str_negative t))"

text \<open>The comparisons \<open>n >= 0\<close> and \<open>n > 0\<close> on a number: false on \<open>NaN\<close>.\<close>

fun ge_zero :: "jsnum \<Rightarrow> bool" where
  "ge_zero NaN = False"
| "ge_zero (Num n) = (0 \<le> n)"

fun gt_zero :: "jsnum \<Rightarrow> bool" where
  "gt_zero NaN = False"
| "gt_zero (Num n) = (0 < n)"

text \<open>The sum of two numbers, exact while it is a safe integer.\<close>

fun num_add :: "jsnum \<Rightarrow> jsnum \<Rightarrow> error + jsnum" where
  "num_add (Num a) (Num b) = (if safe_integer (a + b) then Inr (Num (a + b)) else Inl Unmodelled)"
| "num_add _ _ = Inr NaN"

definition js_or :: "jsval \<Rightarrow> jsval \<Rightarrow> jsval" where
  "js_or a b = (if truthy a then a else b)"

subsection \<open>The lodash helpers the builder calls\<close>

fun isObject :: "jsval \<Rightarrow> bool" where
  "isObject (JArray xs) = True"
| "isObject (JObject kvs) = True"
| "isObject _ = False"

fun isArray :: "jsval \<Rightarrow> bool" where
  "isArray (JArray xs) = True"
| "isArray _ = False"

fun keys :: "jsval \<Rightarrow> string list" where
  "keys (JArray xs) = map string_of_nat [0..<length xs]"
| "keys (JString s) = map string_of_nat [0..<length s]"
| "keys (JObject kvs) = map fst kvs"
| "keys _ = []"

fun values_of :: "jsval \<Rightarrow> jsval list" where
  "values_of (JArray xs) = xs"
| "values_of (JString s) = map (\<lambda>c. JString [c]) s"
| "values_of (JObject kvs) = map snd kvs"
| "values_of _ = []"

text \<open>
  The elements \<open>_.each\<close> visits, in order. An object whose \<open>length\<close> is a non-negative
  safe integer is array-like for lodash and is visited by index, as arrays and strings are.
\<close>

fun each_items :: "jsval \<Rightarrow> jsval list" where
  "each_items (JArray xs) = xs"
| "each_items (JString s) = map (\<lambda>c. JString [c]) s"
| "each_items (JObject kvs) =
     (case map_of kvs ''length'' of
        Some (JNumber (Num n)) \<Rightarrow>
          (if 0 \<le> n \<and> n \<le> MAX_SAFE_INTEGER
           then map (\<lambda>i. case map_of kvs (string_of_nat i) of Some v \<Rightarrow> v | None \<Rightarrow> JUndefined)
                  [0..<nat n]
           else map snd kvs)
      | _ \<Rightarrow> map snd kvs)"
| "each_items _ = []"

text \<open>A loop whose body may fail: the first failure leaves the loop.\<close>

fun each_loop :: "('a \<Rightarrow> 'b \<Rightarrow> error + 'b) \<Rightarrow> 'a list \<Rightarrow> 'b \<Rightarrow> error + 'b" where
  "each_loop f [] acc = Inr acc"
| "each_loop f (x # xs) acc =
     (case f x acc of Inl e \<Rightarrow> Inl e | Inr acc' \<Rightarrow> each_loop f xs acc')"

text \<open>\<open>Array.prototype.join\<close> on an array of strings.\<close>

fun join :: "string \<Rightarrow> string list \<Rightarrow> string" where
  "join sep [] = []"
| "join sep [x] = x"
| "join sep (x # y # ys) = x @ sep @ join sep (y # ys)"

section \<open>The builder\<close>

text \<open>
  A \<open>Date\<close> is represented by the text its \<open>toISOString\<close> method returns, or it is the
  invalid date, on which the method throws a \<open>RangeError\<close>. The options of the
  constructor are typed as the specification's configuration types them; an absent option
  is \<open>None\<close> (\<open>undefined\<close> in the source), and it is falsy like the empty string. A date
  object, valid or not, is truthy.
\<close>

datatype jsdate = Date string | InvalidDate

fun toISOString :: "jsdate \<Rightarrow> error + string" where
  "toISOString (Date t) = Inr t"
| "toISOString InvalidDate = Inl RangeError"

record self =
  sTableName :: "string option"
  sCountColumnName :: "string option"
  sDatabaseOrSchema :: "string option"
  aSearchColumns :: "string list"
  sSelectSql :: "string option"
  sFromSql :: "string option"
  sWhereAndSql :: "string option"
  sDateColumnName :: "string option"
  dateFrom :: "jsdate option"
  dateTo :: "jsdate option"
  oRequestQuery :: jsval
  dbType :: "string option"

definition DEFAULT_LIMIT :: int where
  "DEFAULT_LIMIT = 100"

fun set_str :: "string option \<Rightarrow> bool" where
  "set_str None = False"
| "set_str (Some s) = (s \<noteq> [])"

fun str_text :: "string option \<Rightarrow> string" where
  "str_text None = ''undefined''"
| "str_text (Some s) = s"

subsection \<open>sanitize\<close>

definition escape_char :: "char \<Rightarrow> string" where
  "escape_char c =
     (if c = CHR 0x00 then [CHR 0x5C, CHR ''0'']
      else if c = CHR 0x08 then [CHR 0x5C, CHR ''b'']
      else if c = CHR 0x09 then [CHR 0x5C, CHR ''t'']
      else if c = CHR 0x1A then [CHR 0x5C, CHR ''z'']
      else if c = CHR 0x0A then [CHR 0x5C, CHR ''n'']
      else if c = CHR 0x0D then [CHR 0x5C, CHR ''r'']
      else if c = CHR 0x22 \<or> c = CHR 0x27 \<or> c = CHR 0x5C \<or> c = CHR 0x25 then [CHR 0x5C, c]
      else [c])"

fun chars_of :: "jsval \<Rightarrow> string" where
  "chars_of (JString s) = s"
| "chars_of _ = []"

definition sanitize_len :: "jsval \<Rightarrow> nat option \<Rightarrow> jsval" where
  "sanitize_len str len0 =
     (let len = (case len0 of None \<Rightarrow> 256 | Some n \<Rightarrow> if n = 0 then 256 else n)
      in if \<not> truthy str \<or> (typeof str = ''string'' \<and> length (chars_of str) < 1) then str
         else if typeof str \<noteq> ''string'' \<or> len < length (chars_of str) then JNull
         else JString (concat (map escape_char (chars_of str))))"

definition sanitize :: "jsval \<Rightarrow> jsval" where
  "sanitize str = sanitize_len str None"

subsection \<open>The partial statements\<close>

definition buildSetDatabaseOrSchemaStatement :: "self \<Rightarrow> jsval" where
  "buildSetDatabaseOrSchemaStatement s =
     (if set_str (sDatabaseOrSchema s) then
        (if dbType s = Some ''oracle''
         then JString (''ALTER SESSION SET CURRENT_SCHEMA = '' @ str_text (sDatabaseOrSchema s))
         else JString (''USE '' @ str_text (sDatabaseOrSchema s)))
      else JUndefined)"

text \<open>The condition of the source is \<open>(sDateColumnName && dateFrom) || dateTo\<close>.\<close>

definition buildDatePartial :: "self \<Rightarrow> error + jsval" where
  "buildDatePartial s =
     (if (set_str (sDateColumnName s) \<and> dateFrom s \<noteq> None) \<or> dateTo s \<noteq> None then
        (case (dateFrom s, dateTo s) of
           (Some f, Some t) \<Rightarrow>
             and_then (toISOString f) (\<lambda>fromISO.
             and_then (toISOString t) (\<lambda>toISO.
               Inr (JString (str_text (sDateColumnName s) @ '' BETWEEN '' @ [CHR 0x27] @ fromISO
                             @ [CHR 0x27] @ '' AND '' @ [CHR 0x27] @ toISO @ [CHR 0x27]))))
         | (Some f, None) \<Rightarrow>
             and_then (toISOString f) (\<lambda>fromISO.
               Inr (JString (str_text (sDateColumnName s) @ '' >= '' @ [CHR 0x27] @ fromISO
                             @ [CHR 0x27])))
         | (None, Some t) \<Rightarrow>
             and_then (toISOString t) (\<lambda>toISO.
               Inr (JString (str_text (sDateColumnName s) @ '' <= '' @ [CHR 0x27] @ toISO
                             @ [CHR 0x27])))
         | (None, None) \<Rightarrow> Inr JUndefined)
      else Inr JUndefined)"

definition buildILIKESearch :: "jsval \<Rightarrow> jsval \<Rightarrow> error + string" where
  "buildILIKESearch colName searchVal =
     and_then (toString colName) (\<lambda>c.
     and_then (toString searchVal) (\<lambda>v.
       Inr (''CAST('' @ c @ '' as text)'' @ '' ILIKE '' @ [CHR 0x27] @ ''%'' @ v @ ''%''
            @ [CHR 0x27])))"

definition buildLIKESearch :: "jsval \<Rightarrow> jsval \<Rightarrow> error + string" where
  "buildLIKESearch colName searchVal =
     and_then (toString colName) (\<lambda>c.
     and_then (toString searchVal) (\<lambda>v.
       Inr (c @ '' LIKE '' @ [CHR 0x27] @ ''%'' @ v @ ''%'' @ [CHR 0x27])))"

text \<open>
  The callback of \<open>_.each\<close> in \<open>buildSearchArray\<close>, for one column and the array so far.
  With \<open>customColumns\<close> the column is the allow-listed name itself.
\<close>

definition search_column ::
  "self \<Rightarrow> jsval \<Rightarrow> bool \<Rightarrow> bool \<Rightarrow> jsval \<Rightarrow> string list \<Rightarrow> error + string list" where
  "search_column s requestQuery global customColumns column searchArray =
     and_then (if customColumns then Inr True
               else and_then (get column ''searchable'') (\<lambda>v. Inr (v = JString ''true'')))
       (\<lambda>searchable.
          if searchable then
            and_then (if customColumns then Inr column else get column ''name'') (\<lambda>nameArg.
            and_then (if global
                      then and_then (get requestQuery ''search'') (\<lambda>srch. get srch ''value'')
                      else and_then (get column ''search'') (\<lambda>srch. get srch ''value''))
              (\<lambda>valArg.
                 let colName = sanitize nameArg;
                     searchVal = sanitize valArg
                 in if truthy colName \<and> truthy searchVal then
                      and_then (if dbType s = Some ''postgres''
                                then buildILIKESearch colName searchVal
                                else buildLIKESearch colName searchVal)
                        (\<lambda>like. Inr (searchArray @ [like]))
                    else Inr searchArray))
          else Inr searchArray)"

definition buildSearchArray :: "self \<Rightarrow> jsval \<Rightarrow> bool \<Rightarrow> error + string list" where
  "buildSearchArray s requestQuery global =
     (let customColumns = (aSearchColumns s \<noteq> [] \<and> global) in
      and_then (if customColumns then Inr (JArray (map JString (aSearchColumns s)))
                else get requestQuery ''columns'')
        (\<lambda>collection.
           each_loop (search_column s requestQuery global customColumns)
             (each_items collection) []))"

definition buildSearchPartial :: "self \<Rightarrow> jsval \<Rightarrow> error + string" where
  "buildSearchPartial s requestQuery =
     and_then (buildSearchArray s requestQuery False) (\<lambda>colSearches.
     and_then (buildSearchArray s requestQuery True) (\<lambda>globalSearches.
       let searches = [];
           searches = (if colSearches \<noteq> []
                       then searches @ [''('' @ join '' AND '' colSearches @ '')'']
                       else searches);
           searches = (if globalSearches \<noteq> []
                       then searches @ [''('' @ join '' OR '' globalSearches @ '')'']
                       else searches)
       in Inr (join '' AND '' searches)))"

definition buildWherePartial :: "self \<Rightarrow> jsval \<Rightarrow> error + string" where
  "buildWherePartial s requestQuery =
     and_then (buildSearchPartial s requestQuery) (\<lambda>searchQuery.
       let sWheres = [];
           sWheres = (if searchQuery \<noteq> [] then sWheres @ [searchQuery] else sWheres);
           sWheres = (if set_str (sWhereAndSql s) then sWheres @ [str_text (sWhereAndSql s)]
                      else sWheres)
       in and_then (buildDatePartial s) (\<lambda>dateSql.
            let sWheres = (if truthy dateSql then sWheres @ [chars_of dateSql] else sWheres)
            in if sWheres \<noteq> [] then Inr ('' WHERE ('' @ join '') AND ('' sWheres @ '')'')
               else Inr []))"

definition buildCountStatement :: "self \<Rightarrow> jsval \<Rightarrow> error + string" where
  "buildCountStatement s requestQuery =
     and_then (buildDatePartial s) (\<lambda>dateSql.
       let result = ''SELECT COUNT('';
           result = result @ (if set_str (sSelectSql s) then str_text (sTableName s) @ ''.id''
                              else (if set_str (sCountColumnName s)
                                    then str_text (sCountColumnName s) else ''id''));
           result = result @ '') FROM '';
           result = result @ (if set_str (sFromSql s) then str_text (sFromSql s)
                              else str_text (sTableName s))
       in and_then (buildWherePartial s requestQuery) (\<lambda>wh. Inr (result @ wh)))"

text \<open>
  The loop of \<open>buildOrderingPartial\<close> over \<open>orderQuery\<close>, which the source builds as the
  one-element array \<open>[requestQuery.order[0]]\<close>.
\<close>

definition order_entry :: "jsval \<Rightarrow> jsval \<Rightarrow> string list \<Rightarrow> error + string list" where
  "order_entry requestQuery order query =
     and_then (get requestQuery ''columns'') (\<lambda>columns.
     and_then (get order ''column'') (\<lambda>idx.
     and_then (toString idx) (\<lambda>key.
     and_then (get_by_key columns key) (\<lambda>column.
     and_then (get column ''orderable'') (\<lambda>orderable.
       if orderable = JString ''true'' then
         and_then (get column ''name'') (\<lambda>name.
           if truthy name then
             and_then (get column ''name'') (\<lambda>name'.
             and_then (toString name') (\<lambda>n.
             and_then (get order ''dir'') (\<lambda>dir.
             and_then (toString dir) (\<lambda>d.
               Inr (query @ [n @ '' '' @ d])))))
           else Inr query)
       else Inr query)))))"

definition buildOrderingPartial :: "jsval \<Rightarrow> error + string" where
  "buildOrderingPartial requestQuery =
     and_then (get requestQuery ''order'') (\<lambda>ord.
     and_then (get ord ''0'') (\<lambda>first.
       let orderQuery = [first] in
       and_then (each_loop (order_entry requestQuery) orderQuery []) (\<lambda>query.
         if query \<noteq> [] then Inr ('' ORDER BY '' @ join '', '' query) else Inr [])))"

definition buildLimitPartial :: "self \<Rightarrow> jsval \<Rightarrow> error + string" where
  "buildLimitPartial s requestQuery =
     (if truthy requestQuery \<and> get requestQuery ''start'' \<noteq> Inr JUndefined
         \<and> dbType s \<noteq> Some ''oracle'' then
        and_then (get requestQuery ''start'') (\<lambda>st.
        and_then (parseInt st) (\<lambda>start.
          if ge_zero start then
            and_then (get requestQuery ''length'') (\<lambda>len0.
            and_then (lt_zero len0) (\<lambda>negative.
              if negative then Inr '' ''
              else
                and_then (parseInt len0) (\<lambda>len.
                and_then (string_of_num start) (\<lambda>startText.
                  let sLimit = (if dbType s = Some ''postgres''
                                then '' OFFSET '' @ startText @ '' LIMIT ''
                                else '' LIMIT '' @ startText @ '', '')
                  in and_then (if gt_zero len then string_of_num len
                               else string_of_num (Num DEFAULT_LIMIT))
                       (\<lambda>lenText. Inr (sLimit @ lenText))))))
          else Inr []))
      else Inr [])"

definition buildSelectPartial :: "self \<Rightarrow> string" where
  "buildSelectPartial s =
     ''SELECT '' @ (if set_str (sSelectSql s) then str_text (sSelectSql s) else ''*'')
       @ '' FROM '' @ (if set_str (sFromSql s) then str_text (sFromSql s)
                       else str_text (sTableName s))"

subsection \<open>buildQuery\<close>

text \<open>
  The statement set starts with every field \<open>null\<close>. \<open>buildQuery\<close> returns its outcome
  together with the builder's state: the assignment to \<open>oRequestQuery\<close> comes after the
  read of \<open>requestQuery.search\<close> and before everything else that may throw.
\<close>

record queries =
  changeDatabaseOrSchema :: jsval
  recordsTotal :: jsval
  recordsFiltered :: jsval
  select :: jsval

definition oracle_wrap :: "self \<Rightarrow> jsval \<Rightarrow> string \<Rightarrow> error + string" where
  "oracle_wrap s requestQuery query =
     (if dbType s = Some ''oracle'' then
        and_then (get requestQuery ''start'') (\<lambda>st.
        and_then (parseInt st) (\<lambda>start.
        and_then (get requestQuery ''length'') (\<lambda>len0.
        and_then (parseInt len0) (\<lambda>len.
          if ge_zero len \<and> ge_zero start then
            and_then (num_add start (Num 1)) (\<lambda>lo.
            and_then (string_of_num lo) (\<lambda>loText.
            and_then (num_add start len) (\<lambda>hi.
            and_then (string_of_num hi) (\<lambda>hiText.
              Inr (''SELECT * FROM (SELECT a.*, ROWNUM rnum FROM ('' @ query @ '') ''
                   @ ''a)'' @ '' WHERE rnum BETWEEN '' @ loText @ '' AND '' @ hiText)))))
          else Inr query))))
      else Inr query)"

definition build_statements :: "self \<Rightarrow> jsval \<Rightarrow> jsval \<Rightarrow> error + queries" where
  "build_statements s requestQuery searchString =
     (let queries = \<lparr>changeDatabaseOrSchema = JNull, recordsTotal = JNull,
                      recordsFiltered = JNull, select = JNull\<rparr>;
          useStmt = buildSetDatabaseOrSchemaStatement s;
          queries = (if truthy useStmt then queries\<lparr>changeDatabaseOrSchema := useStmt\<rparr>
                     else queries)
      in and_then (buildCountStatement s requestQuery) (\<lambda>total.
         let queries = queries\<lparr>recordsTotal := JString total\<rparr> in
         and_then (if truthy searchString
                   then and_then (buildCountStatement s requestQuery)
                          (\<lambda>c. Inr (queries\<lparr>recordsFiltered := JString c\<rparr>))
                   else Inr queries) (\<lambda>queries.
         let query = buildSelectPartial s in
         and_then (buildWherePartial s requestQuery) (\<lambda>wh.
         let query = query @ wh in
         and_then (buildOrderingPartial requestQuery) (\<lambda>ord.
         let query = query @ ord in
         and_then (buildLimitPartial s requestQuery) (\<lambda>lim.
         let query = query @ lim in
         and_then (oracle_wrap s requestQuery query) (\<lambda>query.
           Inr (queries\<lparr>select := JString query\<rparr>))))))))"

definition buildQuery :: "self \<Rightarrow> jsval \<Rightarrow> (error + queries) \<times> self" where
  "buildQuery s requestQuery =
     (if typeof requestQuery \<noteq> ''object'' then
        (Inr \<lparr>changeDatabaseOrSchema = JNull, recordsTotal = JNull,
              recordsFiltered = JNull, select = JNull\<rparr>, s)
      else
        (case get requestQuery ''search'' of
           Inl e \<Rightarrow> (Inl e, s)
         | Inr srch \<Rightarrow>
             (case (if isObject srch then get srch ''value'' else Inr (JString [])) of
                Inl e \<Rightarrow> (Inl e, s)
              | Inr v \<Rightarrow>
                  (let searchString = sanitize v;
                       s' = s\<lparr>oRequestQuery := requestQuery\<rparr>
                   in (build_statements s' requestQuery searchString, s')))))"

subsection \<open>parseResponse\<close>

definition extractResponseVal :: "jsval \<Rightarrow> error + jsval" where
  "extractResponseVal res =
     (if isArray res then
        and_then (get res ''length'') (\<lambda>n.
          if truthy n then
            and_then (get res ''0'') (\<lambda>row.
              if isObject row then
                (let resObj = values_of row in
                 if resObj \<noteq> [] then Inr (hd resObj) else Inr JUndefined)
              else Inr JUndefined)
          else Inr JUndefined)
      else Inr JUndefined)"

record response =
  resp_recordsFiltered :: jsval
  resp_recordsTotal :: jsval
  draw :: jsval
  data :: jsval

text \<open>
  The local \<open>_queryResult\<close> of the source is an object literal; the counts and the rows
  are read from it, and the argument \<open>queryResult\<close> is only tested. In the response
  record the fields \<open>recordsFiltered\<close> and \<open>recordsTotal\<close> carry the prefix \<open>resp_\<close>,
  the statement set having fields of the same names.
\<close>

definition local_queryResult :: jsval where
  "local_queryResult =
     JObject [(''recordsFiltered'', JNumber (Num 0)), (''recordsTotal'', JNumber (Num 0)),
              (''select'', JNull)]"

definition parseResponse :: "self \<Rightarrow> jsval \<Rightarrow> error + response" where
  "parseResponse s queryResult =
     (let oQuery = oRequestQuery s;
          result = \<lparr>resp_recordsFiltered = JNumber (Num 0), resp_recordsTotal = JNumber (Num 0),
                    draw = JNumber (Num 0), data = JNull\<rparr>
      in and_then
           (if truthy oQuery then
              and_then (get oQuery ''draw'') (\<lambda>d.
                if typeof d = ''string''
                then and_then (parseInt d) (\<lambda>n. Inr (result\<lparr>draw := JNumber n\<rparr>))
                else Inr (result\<lparr>draw := JNumber (Num 0)\<rparr>))
            else Inr (result\<lparr>draw := JNumber (Num 0)\<rparr>))
           (\<lambda>result.
              if isObject queryResult \<and> 1 < length (keys queryResult) then
                and_then (get local_queryResult ''recordsTotal'') (\<lambda>rt.
                and_then (extractResponseVal rt) (\<lambda>total.
                  let total = js_or total (JNumber (Num 0));
                      result = result\<lparr>resp_recordsTotal := total, resp_recordsFiltered := total\<rparr>
                  in and_then (get local_queryResult ''recordsFiltered'') (\<lambda>rf.
                     and_then (if truthy rf then
                                 and_then (get local_queryResult ''recordsFiltered'') (\<lambda>rf'.
                                 and_then (extractResponseVal rf') (\<lambda>filtered.
                                   Inr (result\<lparr>resp_recordsFiltered :=
                                                  js_or filtered (JNumber (Num 0))\<rparr>)))
                               else Inr result) (\<lambda>result.
                     and_then (get local_queryResult ''select'') (\<lambda>sel.
                       Inr (result\<lparr>data := sel\<rparr>))))))
              else Inr result))"

section \<open>Well-formed requests and sample values\<close>

text \<open>
  A request is well formed when it has the shape of the specification's \<open>RequestQuery\<close>:
  an object with a \<open>search\<close> object holding a string \<open>value\<close>, an array \<open>columns\<close> of
  column objects, a non-empty array \<open>order\<close> whose first entry names a column by an index
  within \<open>columns\<close>, and \<open>start\<close> and \<open>length\<close> absent or numbers or strings. A number, or
  the integer \<open>parseInt\<close> reads from a string, is to be of magnitude below \<open>2 ^ 52\<close>, so
  that \<open>start + 1\<close> and \<open>start + length\<close> are safe integers too.
\<close>

fun own_prop :: "jsval \<Rightarrow> string \<Rightarrow> jsval" where
  "own_prop (JObject kvs) k = (case map_of kvs k of Some v \<Rightarrow> v | None \<Rightarrow> JUndefined)"
| "own_prop _ k = JUndefined"

fun is_plain_object :: "jsval \<Rightarrow> bool" where
  "is_plain_object (JObject kvs) = True"
| "is_plain_object _ = False"

fun is_string :: "jsval \<Rightarrow> bool" where
  "is_string (JString s) = True"
| "is_string _ = False"

fun array_items :: "jsval \<Rightarrow> jsval list option" where
  "array_items (JArray xs) = Some xs"
| "array_items _ = None"

fun index_in :: "nat \<Rightarrow> jsval \<Rightarrow> bool" where
  "index_in n (JNumber (Num i)) = (0 \<le> i \<and> i < int n \<and> safe_integer i)"
| "index_in n _ = False"

definition has_string_value :: "jsval \<Rightarrow> bool" where
  "has_string_value v = (is_plain_object v \<and> is_string (own_prop v ''value''))"

definition wf_column :: "jsval \<Rightarrow> bool" where
  "wf_column c =
     (is_plain_object c \<and> is_string (own_prop c ''name'')
      \<and> is_string (own_prop c ''searchable'')
      \<and> is_string (own_prop c ''orderable'') \<and> has_string_value (own_prop c ''search''))"

definition wf_order :: "nat \<Rightarrow> jsval \<Rightarrow> bool" where
  "wf_order ncols ord =
     (is_plain_object ord \<and> index_in ncols (own_prop ord ''column'')
      \<and> is_string (own_prop ord ''dir''))"

fun page_number :: "jsnum \<Rightarrow> bool" where
  "page_number NaN = True"
| "page_number (Num k) = (- (2 ^ 52) < k \<and> k < 2 ^ 52)"

fun wf_scalar :: "jsval \<Rightarrow> bool" where
  "wf_scalar JUndefined = True"
| "wf_scalar (JNumber n) = page_number n"
| "wf_scalar (JString s) = (case parseInt_str s of Inr n \<Rightarrow> page_number n | Inl e \<Rightarrow> False)"
| "wf_scalar _ = False"

definition wf_request :: "jsval \<Rightarrow> bool" where
  "wf_request r =
     (is_plain_object r \<and> has_string_value (own_prop r ''search'')
      \<and> (case array_items (own_prop r ''columns'') of
            None \<Rightarrow> False
          | Some cols \<Rightarrow>
              list_all wf_column cols
              \<and> (case array_items (own_prop r ''order'') of
                    Some (ord # ords) \<Rightarrow> wf_order (length cols) ord
                  | _ \<Rightarrow> False))
      \<and> wf_scalar (own_prop r ''start'') \<and> wf_scalar (own_prop r ''length''))"

text \<open>A configuration whose dates, where set, are valid dates.\<close>

fun valid_date :: "jsdate option \<Rightarrow> bool" where
  "valid_date None = True"
| "valid_date (Some (Date t)) = True"
| "valid_date (Some InvalidDate) = False"

definition valid_dates :: "self \<Rightarrow> bool" where
  "valid_dates s = (valid_date (dateFrom s) \<and> valid_date (dateTo s))"

text \<open>The configuration and the request of the specification's end-to-end scenario.\<close>

definition users_config :: self where
  "users_config =
     \<lparr>sTableName = Some ''users'', sCountColumnName = None, sDatabaseOrSchema = None,
      aSearchColumns = [''name'', ''email''], sSelectSql = None, sFromSql = None,
      sWhereAndSql = None, sDateColumnName = None, dateFrom = None, dateTo = None,
      oRequestQuery = JUndefined, dbType = Some ''postgres''\<rparr>"

definition ann_request :: jsval where
  "ann_request =
     JObject
       [(''draw'', JString ''1''),
        (''search'', JObject [(''value'', JString ''ann'')]),
        (''columns'',
           JArray [JObject [(''name'', JString ''name''), (''searchable'', JString ''true''),
                            (''orderable'', JString ''true''),
                            (''search'', JObject [(''value'', JString [])])]]),
        (''order'', JArray [JObject [(''column'', JNumber (Num 0)), (''dir'', JString ''asc'')]]),
        (''start'', JNumber (Num 0)),
        (''length'', JNumber (Num 10))]"

text \<open>A configuration that sets nothing but the table, in the default dialect.\<close>

definition orders_config :: self where
  "orders_config =
     \<lparr>sTableName = Some ''orders'', sCountColumnName = None, sDatabaseOrSchema = None,
      aSearchColumns = [], sSelectSql = None, sFromSql = None,
      sWhereAndSql = None, sDateColumnName = None, dateFrom = None, dateTo = None,
      oRequestQuery = JUndefined, dbType = None\<rparr>"

text \<open>A page request with text fields, as a query string delivers it.\<close>

definition page_request :: "string \<Rightarrow> string \<Rightarrow> jsval" where
  "page_request start len = JObject [(''start'', JString start), (''length'', JString len)]"

text \<open>
  The text of one pattern-match predicate on a column name and a search value that are
  both strings: what \<open>buildILIKESearch\<close> (PostgreSQL) and \<open>buildLIKESearch\<close> (every
  other dialect) build.
\<close>

definition pattern_match :: "self \<Rightarrow> string \<Rightarrow> string \<Rightarrow> string" where
  "pattern_match s col val =
     (if dbType s = Some ''postgres''
      then ''CAST('' @ col @ '' as text) ILIKE '' @ [CHR 0x27] @ ''%'' @ val @ ''%'' @ [CHR 0x27]
      else col @ '' LIKE '' @ [CHR 0x27] @ ''%'' @ val @ ''%'' @ [CHR 0x27])"

section \<open>Outcomes\<close>

lemma and_then_Inl [simp]: "and_then (Inl e) f = Inl e"
  by (simp add: and_then_def)

lemma and_then_Inr [simp]: "and_then (Inr x) f = f x"
  by (simp add: and_then_def)

lemma and_then_eq_Inr: "and_then m f = Inr y \<longleftrightarrow> (\<exists>x. m = Inr x \<and> f x = Inr y)"
  by (cases m) auto

section \<open>Numbers as text\<close>

lemma of_char_digit_char: "d < 10 \<Longrightarrow> (of_char (digit_char d) :: nat) = 48 + d"
  by (simp add: digit_char_def)

lemma is_digit_digit_char: "d < 10 \<Longrightarrow> is_digit (digit_char d)"
  by (simp add: is_digit_def of_char_digit_char)

lemma nat_of_digits_snoc:
  "nat_of_digits (ds @ [c]) = 10 * nat_of_digits ds + (of_char c - 48)"
  by (simp add: nat_of_digits_def)

lemma nat_of_digits_string_of_nat: "nat_of_digits (string_of_nat n) = n"
proof (induction n rule: string_of_nat.induct)
  case (1 n)
  show ?case
  proof (cases "n < 10")
    case True
    then show ?thesis
      by (subst string_of_nat.simps) (simp add: nat_of_digits_def of_char_digit_char)
  next
    case False
    with 1 have "nat_of_digits (string_of_nat (n div 10)) = n div 10" by simp
    with False show ?thesis
      by (subst string_of_nat.simps) (simp add: nat_of_digits_snoc of_char_digit_char)
  qed
qed

lemma string_of_nat_inj: "string_of_nat a = string_of_nat b \<Longrightarrow> a = b"
  by (metis nat_of_digits_string_of_nat)

lemma string_of_nat_digits: "list_all is_digit (string_of_nat n) \<and> string_of_nat n \<noteq> []"
proof (induction n rule: string_of_nat.induct)
  case (1 n)
  show ?case
  proof (cases "n < 10")
    case True
    then show ?thesis
      by (subst (1 2) string_of_nat.simps) (simp add: is_digit_digit_char)
  next
    case False
    with 1 have "list_all is_digit (string_of_nat (n div 10))" by simp
    with False show ?thesis
      by (subst (1 2) string_of_nat.simps) (simp add: is_digit_digit_char)
  qed
qed

lemma find_upt_inj:
  assumes "i < n" and "\<And>j. f j = f i \<Longrightarrow> j = i"
  shows "find (\<lambda>j. f j = f i) [0..<n] = Some i"
proof -
  have "\<forall>j<i. f ([0..<n] ! j) \<noteq> f i"
    using assms by fastforce
  with assms(1) show ?thesis
    unfolding find_Some_iff by (intro exI[of _ i]) simp
qed

lemma index_of_key_string_of_nat: "i < n \<Longrightarrow> index_of_key (string_of_nat i) n = Some i"
  unfolding index_of_key_def
  by (rule find_upt_inj) (auto dest: string_of_nat_inj)

lemma not_ws_digit: "is_digit c \<Longrightarrow> \<not> is_ws c"
  by (auto simp: is_digit_def is_ws_def)

lemma parseInt_str_digits:
  assumes "list_all is_digit ds" "ds \<noteq> []" "safe_integer (int (nat_of_digits ds))"
  shows "parseInt_str ds = Inr (Num (int (nat_of_digits ds)))"
proof -
  from assms obtain c cs where ds: "ds = c # cs" by (cases ds) auto
  with assms have c: "is_digit c" by simp
  then have nws: "\<not> is_ws c" by (rule not_ws_digit)
  from c have sign: "c \<noteq> CHR ''-''" "c \<noteq> CHR ''+''" by (auto simp: is_digit_def)
  have tw: "takeWhile is_digit ds = ds" using assms(1) by (simp add: list_all_iff)
  have dw: "dropWhile is_ws ds = ds" using nws ds by simp
  have "parseInt_str ds =
          (if takeWhile is_digit ds = [] then Inr NaN
           else if safe_integer (int (nat_of_digits (takeWhile is_digit ds)))
                then Inr (Num (int (nat_of_digits (takeWhile is_digit ds))))
                else Inl Unmodelled)"
    unfolding parseInt_str_def dw Let_def using sign ds by simp
  then show ?thesis unfolding tw using assms(2,3) by simp
qed

lemma parseInt_str_neg_digits:
  assumes "list_all is_digit ds" "ds \<noteq> []" "safe_integer (- int (nat_of_digits ds))"
  shows "parseInt_str (CHR ''-'' # ds) = Inr (Num (- int (nat_of_digits ds)))"
proof -
  have tw: "takeWhile is_digit ds = ds" using assms(1) by (simp add: list_all_iff)
  have dw: "dropWhile is_ws (CHR ''-'' # ds) = CHR ''-'' # ds" by (simp add: is_ws_def)
  have "parseInt_str (CHR ''-'' # ds) =
          (if takeWhile is_digit ds = [] then Inr NaN
           else if safe_integer (- int (nat_of_digits (takeWhile is_digit ds)))
                then Inr (Num (- int (nat_of_digits (takeWhile is_digit ds))))
                else Inl Unmodelled)"
    unfolding parseInt_str_def dw Let_def by simp
  then show ?thesis unfolding tw using assms(2,3) by simp
qed

text \<open>On a safe integer, \<open>parseInt\<close> reads back the decimal text \<open>String\<close> writes.\<close>

lemma parseInt_str_decimal: "safe_integer k \<Longrightarrow> parseInt_str (decimal k) = Inr (Num k)"
  using string_of_nat_digits
  by (simp add: decimal_def parseInt_str_digits parseInt_str_neg_digits
        nat_of_digits_string_of_nat)

lemma parseInt_number: "safe_integer k \<Longrightarrow> parseInt (JNumber (Num k)) = Inr (Num k)"
  unfolding parseInt_def by (simp add: parseInt_str_decimal)

text \<open>Every integer \<open>parseInt\<close> returns is a safe one.\<close>

lemma parseInt_str_safe: "parseInt_str t = Inr (Num n) \<Longrightarrow> safe_integer n"
  by (auto simp: parseInt_str_def Let_def split: if_splits)

lemma parseInt_safe: "parseInt v = Inr (Num n) \<Longrightarrow> safe_integer n"
  by (auto simp: parseInt_def and_then_eq_Inr dest: parseInt_str_safe)

section \<open>Reading properties and converting values\<close>

lemma get_truthy: "truthy v \<Longrightarrow> k \<noteq> ''search'' \<Longrightarrow> \<exists>x. get v k = Inr x"
  by (cases v) (auto split: option.splits)

lemma parseInt_string: "parseInt (JString d) = parseInt_str d"
  by (simp add: parseInt_def)

lemma typeof_string: "typeof d = ''string'' \<longleftrightarrow> (\<exists>x. d = JString x)"
  by (cases d) auto

section \<open>The response translator\<close>

lemma extractResponseVal_number: "extractResponseVal (JNumber n) = Inr JUndefined"
  by (simp add: extractResponseVal_def)

text \<open>
  Whatever the raw results are, the response \<open>parseResponse\<close> returns has both counts
  \<open>0\<close> and no data: it reads them from its local object literal. The draw it echoes
  depends on the stored request alone.
\<close>

lemma parseResponse_draw_string:
  assumes "truthy (oRequestQuery s)" "get (oRequestQuery s) ''draw'' = Inr (JString d)"
    "parseInt_str d = Inr n"
  shows "parseResponse s qr
           = Inr \<lparr>resp_recordsFiltered = JNumber (Num 0), resp_recordsTotal = JNumber (Num 0),
                  draw = JNumber n, data = JNull\<rparr>"
  using assms
  by (cases "isObject qr \<and> 1 < length (keys qr)")
    (simp_all add: parseResponse_def local_queryResult_def extractResponseVal_number
      js_or_def parseInt_string Let_def)

lemma parseResponse_draw_other:
  assumes "truthy (oRequestQuery s)" "get (oRequestQuery s) ''draw'' = Inr v"
    "typeof v \<noteq> ''string''"
  shows "parseResponse s qr
           = Inr \<lparr>resp_recordsFiltered = JNumber (Num 0), resp_recordsTotal = JNumber (Num 0),
                  draw = JNumber (Num 0), data = JNull\<rparr>"
  using assms
  by (cases "isObject qr \<and> 1 < length (keys qr)")
    (simp_all add: parseResponse_def local_queryResult_def extractResponseVal_number
      js_or_def Let_def)

lemma parseResponse_no_request:
  assumes "\<not> truthy (oRequestQuery s)"
  shows "parseResponse s qr
           = Inr \<lparr>resp_recordsFiltered = JNumber (Num 0), resp_recordsTotal = JNumber (Num 0),
                  draw = JNumber (Num 0), data = JNull\<rparr>"
  using assms
  by (cases "isObject qr \<and> 1 < length (keys qr)")
    (simp_all add: parseResponse_def local_queryResult_def extractResponseVal_number
      js_or_def Let_def)

lemma parseResponse_counts:
  assumes "parseResponse s qr = Inr r"
  shows "resp_recordsFiltered r = JNumber (Num 0) \<and> resp_recordsTotal r = JNumber (Num 0)
         \<and> data r = JNull"
proof (cases "truthy (oRequestQuery s)")
  case True
  then obtain v where v: "get (oRequestQuery s) ''draw'' = Inr v"
    using get_truthy[of "oRequestQuery s" "''draw''"] by auto
  show ?thesis
  proof (cases "typeof v = ''string''")
    case str: True
    then obtain d where d: "v = JString d" by (auto simp: typeof_string)
    show ?thesis
    proof (cases "parseInt_str d")
      case (Inl e)
      with True v d assms show ?thesis
        by (simp add: parseResponse_def parseInt_string Let_def)
    next
      case (Inr n)
      with True v d assms parseResponse_draw_string[of s d n qr] show ?thesis by auto
    qed
  next
    case False
    with True v assms parseResponse_draw_other[of s v qr] show ?thesis by auto
  qed
next
  case False
  with assms parseResponse_no_request[of s qr] show ?thesis by auto
qed

text \<open>
  Claim C1. The response should carry the counts and the rows of the raw results it is
  given: \<open>recordsTotal\<close> the first value of the first row of the count result, \<open>data\<close> the
  rows of the select statement. On raw results with the count \<open>42\<close> and one row, the
  value \<open>extractResponseVal\<close> finds in the count result is \<open>42\<close>, yet the response has
  \<open>recordsTotal = 0\<close>, \<open>recordsFiltered = 0\<close> and \<open>data = null\<close>.
\<close>

theorem C1_parseResponse_discards_results:
  "parseResponse users_config
     (JObject [(''recordsTotal'', JArray [JObject [(''c'', JNumber (Num 42))]]),
               (''select'', JArray [JObject [(''id'', JNumber (Num 1))]])])
   = Inr \<lparr>resp_recordsFiltered = JNumber (Num 0), resp_recordsTotal = JNumber (Num 0),
          draw = JNumber (Num 0), data = JNull\<rparr>
   \<and> extractResponseVal (JArray [JObject [(''c'', JNumber (Num 42))]])
       = Inr (JNumber (Num 42))"
  by code_simp

text \<open>
  Claim C10, as stated, fails: a draw that is a string but not a numeric one is still
  cast, \<open>"abc"\<close> to \<open>NaN\<close> (not \<open>0\<close>) and \<open>"5abc"\<close> to \<open>5\<close>.
\<close>

theorem C10_draw_counterexample:
  "parseResponse (orders_config\<lparr>oRequestQuery := JObject [(''draw'', JString ''abc'')]\<rparr>) JNull
     = Inr \<lparr>resp_recordsFiltered = JNumber (Num 0), resp_recordsTotal = JNumber (Num 0),
            draw = JNumber NaN, data = JNull\<rparr>
   \<and> parseResponse (orders_config\<lparr>oRequestQuery := JObject [(''draw'', JString ''5abc'')]\<rparr>)
       JNull
     = Inr \<lparr>resp_recordsFiltered = JNumber (Num 0), resp_recordsTotal = JNumber (Num 0),
            draw = JNumber (Num 5), data = JNull\<rparr>"
  by code_simp

text \<open>
  Claim C10, amended. When the stored request is truthy and its \<open>draw\<close> is a string, of
  whatever content, \<open>parseResponse\<close> echoes \<open>parseInt(draw, 10)\<close>: the integer of the
  leading digits when that is a safe integer (of magnitude at most \<open>2 ^ 53 - 1\<close>), \<open>NaN\<close>
  when there are no leading digits. When \<open>draw\<close> is absent or not a string, or no request
  is stored, it echoes \<open>0\<close>. On the decimal text of a safe integer, \<open>parseInt\<close> gives back
  that integer. Nothing is stated for a draw whose digits exceed the safe integers.
\<close>

theorem C10_draw_echo:
  "(truthy (oRequestQuery s) \<and> get (oRequestQuery s) ''draw'' = Inr (JString d)
      \<and> parseInt_str d = Inr n \<longrightarrow>
      (\<exists>r. parseResponse s qr = Inr r \<and> draw r = JNumber n))
   \<and> (truthy (oRequestQuery s) \<and> get (oRequestQuery s) ''draw'' = Inr v
        \<and> typeof v \<noteq> ''string'' \<longrightarrow>
        (\<exists>r. parseResponse s qr = Inr r \<and> draw r = JNumber (Num 0)))
   \<and> (\<not> truthy (oRequestQuery s) \<longrightarrow>
        (\<exists>r. parseResponse s qr = Inr r \<and> draw r = JNumber (Num 0)))
   \<and> (safe_integer k \<longrightarrow> parseInt_str (decimal k) = Inr (Num k))
   \<and> (parseInt_str d = Inr (Num k) \<longrightarrow> safe_integer k)"
  using parseResponse_draw_string[of s d n qr] parseResponse_draw_other[of s v qr]
    parseResponse_no_request[of s qr] parseInt_str_decimal[of k] parseInt_str_safe[of d k]
  by auto

theorem C10_draw_echo_witness:
  "(\<exists>r. parseResponse (orders_config\<lparr>oRequestQuery := JObject [(''draw'', JString ''5'')]\<rparr>)
          JNull = Inr r \<and> draw r = JNumber (Num 5))
   \<and> (\<exists>r. parseResponse (orders_config\<lparr>oRequestQuery := JObject [(''start'', JString ''5'')]\<rparr>)
            JNull = Inr r \<and> draw r = JNumber (Num 0))
   \<and> (\<exists>r. parseResponse orders_config JNull = Inr r \<and> draw r = JNumber (Num 0))
   \<and> parseInt_str (decimal 5) = Inr (Num 5)
   \<and> safe_integer 5"
proof -
  have p: "parseInt_str ''5'' = Inr (Num 5)" "safe_integer 5" by code_simp+
  have w1: "\<exists>r. parseResponse (orders_config\<lparr>oRequestQuery := JObject [(''draw'', JString ''5'')]\<rparr>)
                  JNull = Inr r \<and> draw r = JNumber (Num 5)"
    using C10_draw_echo
      [of "orders_config\<lparr>oRequestQuery := JObject [(''draw'', JString ''5'')]\<rparr>" "''5''"
          "Num 5" JNull JNull 5]
    by (simp add: p)
  have w2: "\<exists>r. parseResponse (orders_config\<lparr>oRequestQuery := JObject [(''start'', JString ''5'')]\<rparr>)
                  JNull = Inr r \<and> draw r = JNumber (Num 0)"
    using C10_draw_echo
      [of "orders_config\<lparr>oRequestQuery := JObject [(''start'', JString ''5'')]\<rparr>" "''5''"
          "Num 5" JNull JUndefined 5]
    by (simp add: p)
  have w3: "\<exists>r. parseResponse orders_config JNull = Inr r \<and> draw r = JNumber (Num 0)"
    using C10_draw_echo [of orders_config "''5''" "Num 5" JNull JUndefined 5]
    by (simp add: orders_config_def)
  have w4: "parseInt_str (decimal 5) = Inr (Num 5)"
    using C10_draw_echo [of orders_config "''5''" "Num 5" JNull JUndefined 5] p(2) by blast
  from w1 w2 w3 w4 p(2) show ?thesis by blast
qed

section \<open>The sanitizer\<close>

lemma sanitize_falsy: "\<not> truthy v \<Longrightarrow> sanitize v = v"
  by (simp add: sanitize_def sanitize_len_def)

lemma sanitize_non_string: "truthy v \<Longrightarrow> typeof v \<noteq> ''string'' \<Longrightarrow> sanitize v = JNull"
  by (simp add: sanitize_def sanitize_len_def)

lemma sanitize_long: "256 < length s \<Longrightarrow> sanitize (JString s) = JNull"
  by (auto simp add: sanitize_def sanitize_len_def)

lemma sanitize_escape:
  "length s \<le> 256 \<Longrightarrow> sanitize (JString s) = JString (concat (map escape_char s))"
  by (cases s) (auto simp add: sanitize_def sanitize_len_def)

text \<open>
  Claim C6, as stated, fails on the control characters: a line feed is not prefixed with
  a backslash but replaced by a backslash and the letter \<open>n\<close>.
\<close>

theorem C6_sanitize_newline_counterexample:
  "sanitize (JString [CHR 0x0A]) = JString [CHR 0x5C, CHR ''n'']
   \<and> sanitize (JString [CHR 0x0A]) \<noteq> JString [CHR 0x5C, CHR 0x0A]"
  by (simp add: sanitize_def sanitize_len_def escape_char_def)

text \<open>
  Claim C6, amended. A falsy value (the empty string included) is returned unchanged; a
  truthy value that is not a string gives \<open>null\<close>; a string of more than 256 characters
  gives \<open>null\<close>; every other string is returned with each character replaced by its
  escape: NUL, backspace, tab, ctrl-Z, LF and CR by a backslash and the letter
  \<open>0\<close>, \<open>b\<close>, \<open>t\<close>, \<open>z\<close>, \<open>n\<close>, \<open>r\<close>; a double quote, single quote, backslash or percent
  by a backslash and the character itself; any other character by itself.
\<close>

theorem C6_sanitize_cases:
  "(\<not> truthy v \<longrightarrow> sanitize v = v)
   \<and> (truthy v \<and> typeof v \<noteq> ''string'' \<longrightarrow> sanitize v = JNull)
   \<and> (256 < length s \<longrightarrow> sanitize (JString s) = JNull)
   \<and> (length s \<le> 256 \<longrightarrow> sanitize (JString s) = JString (concat (map escape_char s)))
   \<and> escape_char (CHR 0x00) = [CHR 0x5C, CHR ''0'']
   \<and> escape_char (CHR 0x08) = [CHR 0x5C, CHR ''b'']
   \<and> escape_char (CHR 0x09) = [CHR 0x5C, CHR ''t'']
   \<and> escape_char (CHR 0x1A) = [CHR 0x5C, CHR ''z'']
   \<and> escape_char (CHR 0x0A) = [CHR 0x5C, CHR ''n'']
   \<and> escape_char (CHR 0x0D) = [CHR 0x5C, CHR ''r'']
   \<and> (c \<in> set [CHR 0x22, CHR 0x27, CHR 0x5C, CHR 0x25] \<longrightarrow> escape_char c = [CHR 0x5C, c])
   \<and> (c \<notin> set [CHR 0x00, CHR 0x08, CHR 0x09, CHR 0x1A, CHR 0x0A, CHR 0x0D,
                   CHR 0x22, CHR 0x27, CHR 0x5C, CHR 0x25] \<longrightarrow> escape_char c = [c])"
proof -
  have e1: "c \<in> set [CHR 0x22, CHR 0x27, CHR 0x5C, CHR 0x25] \<longrightarrow> escape_char c = [CHR 0x5C, c]"
    by (auto simp: escape_char_def)
  have e2: "c \<notin> set [CHR 0x00, CHR 0x08, CHR 0x09, CHR 0x1A, CHR 0x0A, CHR 0x0D,
                      CHR 0x22, CHR 0x27, CHR 0x5C, CHR 0x25] \<longrightarrow> escape_char c = [c]"
    by (simp add: escape_char_def)
  have e3: "escape_char (CHR 0x00) = [CHR 0x5C, CHR ''0'']"
    "escape_char (CHR 0x08) = [CHR 0x5C, CHR ''b'']"
    "escape_char (CHR 0x09) = [CHR 0x5C, CHR ''t'']"
    "escape_char (CHR 0x1A) = [CHR 0x5C, CHR ''z'']"
    "escape_char (CHR 0x0A) = [CHR 0x5C, CHR ''n'']"
    "escape_char (CHR 0x0D) = [CHR 0x5C, CHR ''r'']"
    by (simp_all add: escape_char_def)
  show ?thesis
    using e1 e2 e3 sanitize_falsy sanitize_non_string sanitize_long sanitize_escape by blast
qed

theorem C6_sanitize_cases_witness:
  "sanitize (JNumber (Num 0)) = JNumber (Num 0)
   \<and> sanitize (JArray []) = JNull
   \<and> sanitize (JString (replicate 257 (CHR ''a''))) = JNull
   \<and> sanitize (JString ''50%'') = JString [CHR ''5'', CHR ''0'', CHR 0x5C, CHR 0x25]
   \<and> escape_char (CHR 0x25) = [CHR 0x5C, CHR 0x25]
   \<and> escape_char (CHR ''a'') = ''a''"
proof -
  have e: "escape_char (CHR ''5'') = ''5''" "escape_char (CHR ''0'') = ''0''"
    "escape_char (CHR 0x25) = [CHR 0x5C, CHR 0x25]"
    by (simp_all add: escape_char_def)
  show ?thesis
    using C6_sanitize_cases [of "JNumber (Num 0)" "replicate 257 (CHR ''a'')" "CHR 0x25"]
      C6_sanitize_cases [of "JArray []" "''50%''" "CHR ''a''"]
    by (simp add: e)
qed

section \<open>The date-range predicate\<close>

text \<open>
  Claim C4. A date predicate should be emitted only when \<open>sDateColumnName\<close> is set. With
  no date column and only \<open>dateTo\<close> set, the source's condition
  \<open>sDateColumnName && dateFrom || dateTo\<close> holds, and the WHERE clause compares the text
  \<open>undefined\<close> with the bound.
\<close>

theorem C4_date_predicate_without_column:
  "buildDatePartial (orders_config\<lparr>dateTo := Some (Date ''2024-01-01T00:00:00.000Z'')\<rparr>)
     = Inr (JString (''undefined <= '' @ [CHR 0x27] @ ''2024-01-01T00:00:00.000Z''
                     @ [CHR 0x27]))
   \<and> buildWherePartial (orders_config\<lparr>dateTo := Some (Date ''2024-01-01T00:00:00.000Z'')\<rparr>)
        (JObject [])
     = Inr ('' WHERE (undefined <= '' @ [CHR 0x27] @ ''2024-01-01T00:00:00.000Z''
            @ [CHR 0x27] @ '')'')"
  by code_simp

section \<open>The state of the builder\<close>

text \<open>No partial statement reads the stored request.\<close>

lemma buildDatePartial_frame [simp]:
  "buildDatePartial (s\<lparr>oRequestQuery := x\<rparr>) = buildDatePartial s"
  by (simp add: buildDatePartial_def split: option.splits)

lemma search_column_frame [simp]:
  "search_column (s\<lparr>oRequestQuery := x\<rparr>) = search_column s"
  by (intro ext) (simp add: search_column_def Let_def cong: if_cong)

lemma buildSearchArray_frame [simp]:
  "buildSearchArray (s\<lparr>oRequestQuery := x\<rparr>) r g = buildSearchArray s r g"
  by (simp add: buildSearchArray_def Let_def cong: if_cong)

lemma buildSearchPartial_frame [simp]:
  "buildSearchPartial (s\<lparr>oRequestQuery := x\<rparr>) r = buildSearchPartial s r"
  by (simp add: buildSearchPartial_def Let_def cong: if_cong)

lemma buildWherePartial_frame [simp]:
  "buildWherePartial (s\<lparr>oRequestQuery := x\<rparr>) r = buildWherePartial s r"
  by (simp add: buildWherePartial_def Let_def cong: if_cong)

lemma buildCountStatement_frame [simp]:
  "buildCountStatement (s\<lparr>oRequestQuery := x\<rparr>) r = buildCountStatement s r"
  by (simp add: buildCountStatement_def Let_def cong: if_cong)

lemma buildLimitPartial_frame [simp]:
  "buildLimitPartial (s\<lparr>oRequestQuery := x\<rparr>) r = buildLimitPartial s r"
  by (simp add: buildLimitPartial_def Let_def cong: if_cong)

lemma buildSelectPartial_frame [simp]:
  "buildSelectPartial (s\<lparr>oRequestQuery := x\<rparr>) = buildSelectPartial s"
  by (simp add: buildSelectPartial_def Let_def cong: if_cong)

lemma oracle_wrap_frame [simp]:
  "oracle_wrap (s\<lparr>oRequestQuery := x\<rparr>) r q = oracle_wrap s r q"
  by (simp add: oracle_wrap_def Let_def cong: if_cong)

lemma buildSetDatabaseOrSchemaStatement_frame [simp]:
  "buildSetDatabaseOrSchemaStatement (s\<lparr>oRequestQuery := x\<rparr>)
     = buildSetDatabaseOrSchemaStatement s"
  by (simp add: buildSetDatabaseOrSchemaStatement_def Let_def cong: if_cong)

lemma build_statements_frame [simp]:
  "build_statements (s\<lparr>oRequestQuery := x\<rparr>) r v = build_statements s r v"
  by (simp add: build_statements_def Let_def cong: if_cong)

lemma get_isObject: "isObject v \<Longrightarrow> \<exists>x. get v k = Inr x"
  by (cases v) (auto split: option.splits)

lemma typeof_object: "typeof r = ''object'' \<longleftrightarrow> r = JNull \<or> isObject r"
  by (cases r) auto

lemma buildQuery_state:
  "snd (buildQuery s r)
     = (if typeof r = ''object'' \<and> r \<noteq> JNull then s\<lparr>oRequestQuery := r\<rparr> else s)"
proof (cases "typeof r = ''object'' \<and> r \<noteq> JNull")
  case True
  then have "isObject r" by (auto simp: typeof_object)
  then obtain srch where srch: "get r ''search'' = Inr srch"
    using get_isObject by blast
  show ?thesis
  proof (cases "isObject srch")
    case obj: True
    then obtain v where "get srch ''value'' = Inr v" using get_isObject by blast
    with True srch obj show ?thesis by (simp add: buildQuery_def Let_def)
  next
    case False
    with True srch show ?thesis by (simp add: buildQuery_def Let_def)
  qed
next
  case False
  then show ?thesis by (auto simp: buildQuery_def)
qed

lemma buildQuery_result_frame:
  "fst (buildQuery (s\<lparr>oRequestQuery := x\<rparr>) r) = fst (buildQuery s r)"
  by (simp add: buildQuery_def Let_def split: sum.splits)

lemma parseResponse_reads_request_only:
  "parseResponse (s'\<lparr>oRequestQuery := oRequestQuery s\<rparr>) qr = parseResponse s qr"
  by (simp add: parseResponse_def)

text \<open>
  Claim C5, as stated, fails: \<open>buildQuery\<close> stores the request on the instance, and the
  draw a later \<open>parseResponse\<close> echoes comes from it.
\<close>

theorem C5_stored_request_counterexample:
  "oRequestQuery orders_config = JUndefined
   \<and> oRequestQuery (snd (buildQuery orders_config ann_request)) = ann_request
   \<and> parseResponse orders_config JNull
       = Inr \<lparr>resp_recordsFiltered = JNumber (Num 0), resp_recordsTotal = JNumber (Num 0),
              draw = JNumber (Num 0), data = JNull\<rparr>
   \<and> parseResponse (snd (buildQuery orders_config ann_request)) JNull
       = Inr \<lparr>resp_recordsFiltered = JNumber (Num 0), resp_recordsTotal = JNumber (Num 0),
              draw = JNumber (Num 1), data = JNull\<rparr>"
  by code_simp

text \<open>
  Claim C5, amended. \<open>buildQuery\<close> stores the request in the field \<open>oRequestQuery\<close> of
  the instance whenever the request has type object and is not \<open>null\<close>, and changes
  nothing else; the statements it returns do not depend on the request stored before;
  and the stored request is the only state \<open>parseResponse\<close> reads.
\<close>

theorem C5_buildQuery_state:
  "snd (buildQuery s r)
     = (if typeof r = ''object'' \<and> r \<noteq> JNull then s\<lparr>oRequestQuery := r\<rparr> else s)
   \<and> fst (buildQuery (s\<lparr>oRequestQuery := x\<rparr>) r) = fst (buildQuery s r)
   \<and> parseResponse (s'\<lparr>oRequestQuery := oRequestQuery s\<rparr>) qr = parseResponse s qr"
  using buildQuery_state buildQuery_result_frame parseResponse_reads_request_only by blast

theorem C5_buildQuery_state_witness:
  "snd (buildQuery orders_config ann_request) = orders_config\<lparr>oRequestQuery := ann_request\<rparr>
   \<and> snd (buildQuery orders_config (JString ''x'')) = orders_config
   \<and> fst (buildQuery (orders_config\<lparr>oRequestQuery := JNull\<rparr>) ann_request)
       = fst (buildQuery orders_config ann_request)"
proof -
  have t: "typeof ann_request = ''object''" "ann_request \<noteq> JNull"
    by (simp_all add: ann_request_def)
  show ?thesis
    using C5_buildQuery_state [of orders_config ann_request JNull]
      C5_buildQuery_state [of orders_config "JString ''x''"] t
    by simp
qed

section \<open>Requests on which the composition path returns\<close>

lemma is_string_iff: "is_string v \<longleftrightarrow> (\<exists>x. v = JString x)"
  by (cases v) auto

lemma array_items_iff: "array_items v = Some xs \<longleftrightarrow> v = JArray xs"
  by (cases v) auto

lemma get_plain_object: "is_plain_object v \<Longrightarrow> get v k = Inr (own_prop v k)"
  by (cases v) (auto split: option.splits)

lemma plain_object_isObject: "is_plain_object v \<Longrightarrow> isObject v"
  by (cases v) auto

lemma has_string_valueD:
  "has_string_value sv \<Longrightarrow> \<exists>v. get sv ''value'' = Inr (JString v) \<and> isObject sv"
  unfolding has_string_value_def
  by (auto simp: is_string_iff get_plain_object plain_object_isObject)

lemma wf_columnD:
  assumes "wf_column c"
  shows "\<exists>nm se ob srch v. get c ''name'' = Inr (JString nm)
           \<and> get c ''searchable'' = Inr (JString se)
           \<and> get c ''orderable'' = Inr (JString ob)
           \<and> get c ''search'' = Inr srch \<and> get srch ''value'' = Inr (JString v)"
proof -
  from assms have po: "is_plain_object c" and hv: "has_string_value (own_prop c ''search'')"
    and st: "is_string (own_prop c ''name'')" "is_string (own_prop c ''searchable'')"
       "is_string (own_prop c ''orderable'')"
    by (simp_all add: wf_column_def)
  from hv obtain v where "get (own_prop c ''search'') ''value'' = Inr (JString v)"
    using has_string_valueD by blast
  with st show ?thesis
    by (auto simp: get_plain_object[OF po] is_string_iff)
qed

lemma index_inD:
  "index_in n v \<Longrightarrow> \<exists>i. v = JNumber (Num (int i)) \<and> i < n \<and> safe_integer (int i)"
proof (induction n v rule: index_in.induct)
  case (1 n i)
  then have "i = int (nat i)" "nat i < n" "safe_integer (int (nat i))" by auto
  then show ?case by blast
qed auto

lemma wf_orderD:
  assumes "wf_order n ord"
  shows "\<exists>i d. get ord ''column'' = Inr (JNumber (Num (int i))) \<and> i < n
            \<and> safe_integer (int i) \<and> get ord ''dir'' = Inr (JString d)"
proof -
  from assms have po: "is_plain_object ord" and ix: "index_in n (own_prop ord ''column'')"
    and st: "is_string (own_prop ord ''dir'')"
    by (simp_all add: wf_order_def)
  from index_inD[OF ix] st show ?thesis
    by (auto simp: get_plain_object[OF po] is_string_iff)
qed

lemma wf_requestD:
  assumes "wf_request r"
  shows "\<exists>srch cols ord ords st l.
           get r ''search'' = Inr srch \<and> has_string_value srch
           \<and> get r ''columns'' = Inr (JArray cols) \<and> list_all wf_column cols
           \<and> get r ''order'' = Inr (JArray (ord # ords)) \<and> wf_order (length cols) ord
           \<and> get r ''start'' = Inr st \<and> wf_scalar st
           \<and> get r ''length'' = Inr l \<and> wf_scalar l
           \<and> is_plain_object r"
proof -
  from assms have po: "is_plain_object r" and hv: "has_string_value (own_prop r ''search'')"
    and sc: "wf_scalar (own_prop r ''start'')" "wf_scalar (own_prop r ''length'')"
    by (simp_all add: wf_request_def)
  from assms obtain cols where cols: "array_items (own_prop r ''columns'') = Some cols"
    and wfc: "list_all wf_column cols"
    and o: "(case array_items (own_prop r ''order'') of
                    Some (ord # ords) \<Rightarrow> wf_order (length cols) ord
                  | _ \<Rightarrow> False)"
    by (auto simp: wf_request_def split: option.splits)
  from o obtain ord ords where ord: "array_items (own_prop r ''order'') = Some (ord # ords)"
    and wfo: "wf_order (length cols) ord"
    by (auto split: option.splits list.splits)
  from cols ord have "own_prop r ''columns'' = JArray cols"
    "own_prop r ''order'' = JArray (ord # ords)"
    by (simp_all add: array_items_iff)
  with hv sc wfc wfo po show ?thesis
    by (simp add: get_plain_object[OF po])
qed

lemma sanitize_truthy: "truthy (sanitize v) \<Longrightarrow> \<exists>t. sanitize v = JString t \<and> t \<noteq> []"
  by (cases v) (auto simp: sanitize_def sanitize_len_def Let_def split: if_splits)

lemma like_total:
  assumes "truthy (sanitize a)" "truthy (sanitize b)"
  shows "\<exists>t. buildLIKESearch (sanitize a) (sanitize b) = Inr t"
    and "\<exists>t. buildILIKESearch (sanitize a) (sanitize b) = Inr t"
  using sanitize_truthy[OF assms(1)] sanitize_truthy[OF assms(2)]
  by (auto simp: buildLIKESearch_def buildILIKESearch_def)

lemma each_loop_total:
  "(\<And>x acc. x \<in> set xs \<Longrightarrow> \<exists>y. f x acc = Inr y) \<Longrightarrow> \<exists>y. each_loop f xs acc = Inr y"
proof (induction xs arbitrary: acc)
  case Nil
  then show ?case by simp
next
  case (Cons x xs)
  then obtain acc' where "f x acc = Inr acc'" by fastforce
  moreover have "\<exists>y. each_loop f xs acc' = Inr y"
    by (rule Cons.IH) (simp add: Cons.prems)
  ultimately show ?case by simp
qed

lemma search_column_custom_total:
  assumes "get r ''search'' = Inr srch" "get srch ''value'' = Inr v"
  shows "\<exists>y. search_column s r True True c acc = Inr y"
  using assms like_total[of c v]
  by (auto simp: search_column_def Let_def)

lemma search_column_total:
  assumes "wf_column c" "get r ''search'' = Inr srch" "get srch ''value'' = Inr v"
  shows "\<exists>y. search_column s r g False c acc = Inr y"
proof -
  from wf_columnD[OF assms(1)] obtain nm se ob cs cv where
    c: "get c ''name'' = Inr (JString nm)" "get c ''searchable'' = Inr (JString se)"
       "get c ''search'' = Inr cs" "get cs ''value'' = Inr (JString cv)"
    by blast
  show ?thesis
    using assms(2,3) c like_total[of "JString nm" v] like_total[of "JString nm" "JString cv"]
    by (auto simp: search_column_def Let_def)
qed

lemma buildSearchArray_total:
  assumes "get r ''search'' = Inr srch" "get srch ''value'' = Inr v"
    "get r ''columns'' = Inr (JArray cols)" "list_all wf_column cols"
  shows "\<exists>y. buildSearchArray s r g = Inr y"
proof (cases "aSearchColumns s \<noteq> [] \<and> g")
  case True
  then show ?thesis
    using each_loop_total[of "map JString (aSearchColumns s)" "search_column s r True True" "[]"]
      search_column_custom_total[OF assms(1,2)]
    by (simp add: buildSearchArray_def)
next
  case False
  have "\<exists>y. each_loop (search_column s r g False) cols [] = Inr y"
    using assms(4) search_column_total[OF _ assms(1,2)]
    by (intro each_loop_total) (auto simp: list_all_iff)
  with False assms(3) show ?thesis
    by (auto simp add: buildSearchArray_def)
qed

lemma buildSearchPartial_total:
  assumes "get r ''search'' = Inr srch" "get srch ''value'' = Inr v"
    "get r ''columns'' = Inr (JArray cols)" "list_all wf_column cols"
  shows "\<exists>y. buildSearchPartial s r = Inr y"
  using buildSearchArray_total[OF assms, of s False] buildSearchArray_total[OF assms, of s True]
  by (auto simp: buildSearchPartial_def Let_def)

lemma valid_date_cases: "valid_date d \<Longrightarrow> d = None \<or> (\<exists>t. d = Some (Date t))"
  by (induction d rule: valid_date.induct) auto

lemma buildDatePartial_valid: "valid_dates s \<Longrightarrow> \<exists>d. buildDatePartial s = Inr d"
  unfolding valid_dates_def
  using valid_date_cases[of "dateFrom s"] valid_date_cases[of "dateTo s"]
  by (auto simp: buildDatePartial_def)

lemma buildWherePartial_total:
  assumes "buildSearchPartial s r = Inr sq" "valid_dates s"
  shows "\<exists>wh. buildWherePartial s r = Inr wh"
  using assms(1) buildDatePartial_valid[OF assms(2)]
  by (auto simp: buildWherePartial_def Let_def)

lemma buildWherePartial_date:
  "buildWherePartial s r = Inr wh \<Longrightarrow> \<exists>d. buildDatePartial s = Inr d"
  by (auto simp: buildWherePartial_def Let_def and_then_eq_Inr)

lemma buildCountStatement_total:
  assumes "buildWherePartial s r = Inr wh"
  shows "\<exists>c. buildCountStatement s r = Inr c"
  using assms buildWherePartial_date[OF assms]
  by (auto simp: buildCountStatement_def Let_def)

lemma string_of_nat_0: "string_of_nat 0 = ''0''"
  by code_simp

lemma string_of_nat_not_length: "string_of_nat i \<noteq> ''length''"
proof
  assume "string_of_nat i = ''length''"
  with string_of_nat_digits[of i] have "list_all is_digit ''length''" by simp
  then show False by (simp add: is_digit_def)
qed

lemma get_array_index: "i < length xs \<Longrightarrow> get (JArray xs) (string_of_nat i) = Inr (xs ! i)"
  by (simp add: string_of_nat_not_length index_of_key_string_of_nat)

lemma get_by_key_index:
  "i < length xs \<Longrightarrow> get_by_key (JArray xs) (string_of_nat i) = Inr (xs ! i)"
  using string_of_nat_digits[of i]
  by (auto simp: get_by_key_def get_array_index simp del: get.simps split: jsval.splits)

lemma get_array_first: "get (JArray (x # xs)) ''0'' = Inr x"
  using get_array_index[of 0 "x # xs"] by (simp add: string_of_nat_0)

lemma toString_index:
  "safe_integer (int i) \<Longrightarrow> toString (JNumber (Num (int i))) = Inr (string_of_nat i)"
  by (simp add: decimal_def)

lemma order_entry_total:
  assumes "get r ''columns'' = Inr (JArray cols)" "list_all wf_column cols"
    "wf_order (length cols) ord"
  shows "\<exists>y. order_entry r ord acc = Inr y"
proof -
  from wf_orderD[OF assms(3)] obtain i d where
    o: "get ord ''column'' = Inr (JNumber (Num (int i)))" "i < length cols"
       "safe_integer (int i)" "get ord ''dir'' = Inr (JString d)"
    by blast
  from assms(2) o(2) have "wf_column (cols ! i)" by (simp add: list_all_length)
  from wf_columnD[OF this] obtain nm ob where
    c: "get (cols ! i) ''name'' = Inr (JString nm)"
       "get (cols ! i) ''orderable'' = Inr (JString ob)"
    by blast
  show ?thesis
    using assms(1) o c
    by (simp add: order_entry_def toString_index[OF o(3)] get_by_key_index[OF o(2)]
          del: toString.simps(4) get.simps)
qed

lemma buildOrderingPartial_total:
  assumes "get r ''columns'' = Inr (JArray cols)" "list_all wf_column cols"
    "get r ''order'' = Inr (JArray (ord # ords))" "wf_order (length cols) ord"
  shows "\<exists>y. buildOrderingPartial r = Inr y"
  using order_entry_total[OF assms(1,2,4), of "[]"] assms(3)
  by (auto simp: buildOrderingPartial_def get_array_first Let_def simp del: get.simps)

lemma page_number_safe: "page_number (Num k) \<Longrightarrow> safe_integer k"
  by (simp add: safe_integer_def MAX_SAFE_INTEGER_def)

lemma parseInt_not_a_number:
  "parseInt JUndefined = Inr NaN" "parseInt (JNumber NaN) = Inr NaN"
  by code_simp+

lemma wf_scalar_parseInt:
  assumes "wf_scalar v"
  shows "\<exists>n. parseInt v = Inr n \<and> page_number n"
proof (cases v)
  case (JNumber n)
  with assms show ?thesis
    by (cases n) (auto simp: parseInt_not_a_number parseInt_number page_number_safe)
next
  case (JString t)
  with assms show ?thesis
    by (auto simp: parseInt_string split: sum.splits)
qed (use assms in \<open>auto simp: parseInt_not_a_number\<close>)

lemma wf_scalar_lt_zero: "wf_scalar v \<Longrightarrow> \<exists>b. lt_zero v = Inr b"
  by (cases v; cases "case v of JNumber n \<Rightarrow> n | _ \<Rightarrow> NaN") auto

lemma default_limit_text: "string_of_num (Num DEFAULT_LIMIT) = Inr ''100''"
  by code_simp

lemma page_number_text: "page_number n \<Longrightarrow> \<exists>t. string_of_num n = Inr t"
  by (cases n) (auto simp: page_number_safe simp del: page_number.simps)

lemma buildLimitPartial_total:
  assumes "get r ''start'' = Inr st" "wf_scalar st" "get r ''length'' = Inr l" "wf_scalar l"
  shows "\<exists>y. buildLimitPartial s r = Inr y"
proof -
  from wf_scalar_parseInt[OF assms(2)] obtain a where a: "parseInt st = Inr a" "page_number a"
    by blast
  from wf_scalar_parseInt[OF assms(4)] obtain b where b: "parseInt l = Inr b" "page_number b"
    by blast
  from wf_scalar_lt_zero[OF assms(4)] obtain neg where neg: "lt_zero l = Inr neg" by blast
  from page_number_text[OF a(2)] obtain ta where ta: "string_of_num a = Inr ta" by blast
  from page_number_text[OF b(2)] obtain tb where tb: "string_of_num b = Inr tb" by blast
  show ?thesis
    using assms(1,3) a(1) b(1) neg ta tb
    by (simp add: buildLimitPartial_def default_limit_text Let_def del: string_of_num.simps)
qed

lemma page_sum_safe:
  assumes "page_number (Num a)" "page_number (Num b)" "0 \<le> a" "0 \<le> b"
  shows "safe_integer (a + 1)" "safe_integer (a + b)"
  using assms by (simp_all add: safe_integer_def MAX_SAFE_INTEGER_def)

lemma oracle_wrap_total:
  assumes "get r ''start'' = Inr st" "wf_scalar st" "get r ''length'' = Inr l" "wf_scalar l"
  shows "\<exists>y. oracle_wrap s r q = Inr y"
proof -
  from wf_scalar_parseInt[OF assms(2)] obtain a where a: "parseInt st = Inr a" "page_number a"
    by blast
  from wf_scalar_parseInt[OF assms(4)] obtain b where b: "parseInt l = Inr b" "page_number b"
    by blast
  show ?thesis
  proof (cases "ge_zero b \<and> ge_zero a")
    case True
    then obtain x y where xy: "a = Num x" "b = Num y" "0 \<le> x" "0 \<le> y"
      by (cases a; cases b) auto
    from page_sum_safe[of x y] a(2) b(2) xy
    have "safe_integer (x + 1)" "safe_integer (x + y)" by auto
    with assms(1,3) a(1) b(1) xy show ?thesis
      by (simp add: oracle_wrap_def)
  next
    case False
    with assms(1,3) a(1) b(1) show ?thesis
      by (auto simp: oracle_wrap_def)
  qed
qed

lemma build_statements_intro:
  assumes "buildWherePartial s r = Inr wh" "buildOrderingPartial r = Inr ord"
    "buildLimitPartial s r = Inr lim"
    "oracle_wrap s r (buildSelectPartial s @ wh @ ord @ lim) = Inr query"
  shows "\<exists>q. build_statements s r v = Inr q \<and> select q = JString query"
proof -
  from assms(1) obtain c where "buildCountStatement s r = Inr c"
    using buildCountStatement_total by blast
  with assms show ?thesis
    by (simp add: build_statements_def Let_def)
qed

lemma build_statements_elim:
  assumes "build_statements s r v = Inr q"
  shows "\<exists>wh ord lim query. buildWherePartial s r = Inr wh \<and> buildOrderingPartial r = Inr ord
           \<and> buildLimitPartial s r = Inr lim
           \<and> oracle_wrap s r (buildSelectPartial s @ wh @ ord @ lim) = Inr query
           \<and> select q = JString query"
  using assms
  by (auto simp: build_statements_def Let_def and_then_eq_Inr split: if_splits)

lemma plain_object_typeof: "is_plain_object r \<Longrightarrow> typeof r = ''object''"
  by (cases r) auto

lemma buildQuery_search_value:
  assumes "typeof r = ''object''" "get r ''search'' = Inr srch" "isObject srch"
    "get srch ''value'' = Inr v"
  shows "fst (buildQuery s r) = build_statements s r (sanitize v)"
  using assms by (simp add: buildQuery_def Let_def build_statements_frame)

lemma composers_wf_total:
  assumes "wf_request r" "valid_dates s"
  shows "(\<exists>wh. buildWherePartial s r = Inr wh) \<and> (\<exists>ob. buildOrderingPartial r = Inr ob)
         \<and> (\<exists>lim. buildLimitPartial s r = Inr lim)
         \<and> (\<forall>q. \<exists>y. oracle_wrap s r q = Inr y)"
proof -
  from wf_requestD[OF assms(1)] obtain srch cols ord ords st l where
    r: "get r ''search'' = Inr srch" "has_string_value srch"
       "get r ''columns'' = Inr (JArray cols)" "list_all wf_column cols"
       "get r ''order'' = Inr (JArray (ord # ords))" "wf_order (length cols) ord"
       "get r ''start'' = Inr st" "wf_scalar st"
       "get r ''length'' = Inr l" "wf_scalar l"
    by blast
  from has_string_valueD[OF r(2)] obtain v where v: "get srch ''value'' = Inr (JString v)"
    by blast
  from buildSearchPartial_total[OF r(1) v r(3,4)] obtain sq where
    "buildSearchPartial s r = Inr sq" by blast
  then have "\<exists>wh. buildWherePartial s r = Inr wh"
    using assms(2) by (rule buildWherePartial_total)
  moreover have "\<exists>ob. buildOrderingPartial r = Inr ob"
    using r(3,4,5,6) by (rule buildOrderingPartial_total)
  moreover have "\<exists>lim. buildLimitPartial s r = Inr lim"
    using r(7,8,9,10) by (rule buildLimitPartial_total)
  moreover have "\<forall>q. \<exists>y. oracle_wrap s r q = Inr y"
    using oracle_wrap_total[OF r(7,8,9,10)] by blast
  ultimately show ?thesis by blast
qed

lemma buildQuery_wf_total:
  assumes "wf_request r" "valid_dates s"
  shows "\<exists>q query. fst (buildQuery s r) = Inr q \<and> select q = JString query"
proof -
  from wf_requestD[OF assms(1)] obtain srch where
    r: "get r ''search'' = Inr srch" "has_string_value srch" "is_plain_object r"
    by blast
  from has_string_valueD[OF r(2)] obtain v where
    v: "get srch ''value'' = Inr (JString v)" "isObject srch"
    by blast
  from composers_wf_total[OF assms] obtain wh ob lim where
    c: "buildWherePartial s r = Inr wh" "buildOrderingPartial r = Inr ob"
       "buildLimitPartial s r = Inr lim"
    by blast
  from composers_wf_total[OF assms] obtain query where
    q: "oracle_wrap s r (buildSelectPartial s @ wh @ ob @ lim) = Inr query"
    by blast
  from build_statements_intro[OF c q, of "sanitize (JString v)"]
  show ?thesis
    using buildQuery_search_value[OF plain_object_typeof[OF r(3)] r(1) v(2) v(1), of s]
    by auto
qed

lemma buildQuery_not_object:
  "typeof r \<noteq> ''object'' \<Longrightarrow>
     buildQuery s r = (Inr \<lparr>changeDatabaseOrSchema = JNull, recordsTotal = JNull,
                            recordsFiltered = JNull, select = JNull\<rparr>, s)"
  by (simp add: buildQuery_def)

lemma wf_ann_request: "wf_request ann_request"
  by code_simp

lemma valid_dates_samples: "valid_dates users_config" "valid_dates orders_config"
  by code_simp+

text \<open>
  Claim C2, as stated, fails: the guard of \<open>buildQuery\<close> lets every value of type object
  through, and the empty object and \<open>null\<close> both make the composition path throw (the
  first at \<open>requestQuery.order[0]\<close>, the second at \<open>requestQuery.search\<close>). Nor does it
  hold for every configuration: with an invalid date as \<open>dateTo\<close>, a well-formed request
  throws a \<open>RangeError\<close> at \<open>toISOString\<close>.
\<close>

theorem C2_buildQuery_throws_counterexample:
  "typeof (JObject []) = ''object''
   \<and> fst (buildQuery orders_config (JObject [])) = Inl TypeError
   \<and> typeof JNull = ''object'' \<and> fst (buildQuery orders_config JNull) = Inl TypeError
   \<and> wf_request ann_request
   \<and> fst (buildQuery (orders_config\<lparr>dateTo := Some InvalidDate\<rparr>) ann_request)
       = Inl RangeError"
  by code_simp

text \<open>
  Claim C2, amended. For every request whose type is not object, \<open>buildQuery\<close> returns
  the statement set with every field \<open>null\<close> and leaves the builder as it was; and for
  every configuration whose dates, where set, are valid, and every well-formed request,
  \<open>buildQuery\<close> and the WHERE, ORDER and LIMIT composers return a result: they do not
  throw.
\<close>

theorem C2_buildQuery_fail_soft:
  "(typeof r \<noteq> ''object'' \<longrightarrow>
      buildQuery s r = (Inr \<lparr>changeDatabaseOrSchema = JNull, recordsTotal = JNull,
                             recordsFiltered = JNull, select = JNull\<rparr>, s))
   \<and> (wf_request r \<and> valid_dates s \<longrightarrow>
        (\<exists>q. fst (buildQuery s r) = Inr q) \<and> (\<exists>wh. buildWherePartial s r = Inr wh)
        \<and> (\<exists>ob. buildOrderingPartial r = Inr ob) \<and> (\<exists>lim. buildLimitPartial s r = Inr lim))"
  using buildQuery_not_object[of r s] buildQuery_wf_total[of r s] composers_wf_total[of r s]
  by blast

theorem C2_buildQuery_fail_soft_witness:
  "buildQuery orders_config (JString ''x'')
     = (Inr \<lparr>changeDatabaseOrSchema = JNull, recordsTotal = JNull,
             recordsFiltered = JNull, select = JNull\<rparr>, orders_config)
   \<and> wf_request ann_request \<and> valid_dates users_config
   \<and> (\<exists>q. fst (buildQuery users_config ann_request) = Inr q)
   \<and> (\<exists>wh. buildWherePartial users_config ann_request = Inr wh)
   \<and> (\<exists>ob. buildOrderingPartial ann_request = Inr ob)
   \<and> (\<exists>lim. buildLimitPartial users_config ann_request = Inr lim)"
  using C2_buildQuery_fail_soft [of "JString ''x''" orders_config]
    C2_buildQuery_fail_soft [of ann_request users_config] wf_ann_request
    valid_dates_samples(1)
  by simp

section \<open>The select statement\<close>

lemma oracle_wrap_SELECT:
  assumes "oracle_wrap s r (''SELECT'' @ rest) = Inr query"
  shows "\<exists>rest'. query = ''SELECT'' @ rest'"
  using assms
  by (auto simp: oracle_wrap_def Let_def and_then_eq_Inr split: if_splits)

lemma buildSelectPartial_SELECT: "\<exists>rest. buildSelectPartial s = ''SELECT'' @ rest"
  by (simp add: buildSelectPartial_def)

lemma build_statements_SELECT:
  assumes "build_statements s r v = Inr q"
  shows "\<exists>rest. select q = JString (''SELECT'' @ rest)"
proof -
  from build_statements_elim[OF assms] obtain wh ob lim query where
    q: "oracle_wrap s r (buildSelectPartial s @ wh @ ob @ lim) = Inr query"
       "select q = JString query"
    by blast
  obtain rest where "buildSelectPartial s = ''SELECT'' @ rest"
    using buildSelectPartial_SELECT by blast
  with q(1) have "oracle_wrap s r (''SELECT'' @ (rest @ wh @ ob @ lim)) = Inr query" by simp
  from oracle_wrap_SELECT[OF this] q(2) show ?thesis by blast
qed

lemma buildQuery_object_Inr:
  assumes "typeof r = ''object''" "fst (buildQuery s r) = Inr q"
  shows "\<exists>v. build_statements s r v = Inr q"
  using assms
  by (auto simp: buildQuery_def Let_def split: sum.splits if_splits)

text \<open>
  Claim C9, as stated, fails: for a request that is not of type object the select field
  is \<open>null\<close>, not a string.
\<close>

theorem C9_select_null_counterexample:
  "fst (buildQuery orders_config (JString ''SELECT''))
     = Inr \<lparr>changeDatabaseOrSchema = JNull, recordsTotal = JNull,
            recordsFiltered = JNull, select = JNull\<rparr>"
  by code_simp

text \<open>
  Claim C9, amended. For a request that is not of type object the select field is
  \<open>null\<close>. For every configuration and every request of type object for which
  \<open>buildQuery\<close> returns a statement set, the select field is a string that starts with
  \<open>SELECT\<close>; and it does return one for every well-formed request when the dates of the
  configuration, where set, are valid.
\<close>

theorem C9_select_prefix:
  "(typeof r \<noteq> ''object'' \<longrightarrow> (\<exists>q'. fst (buildQuery s r) = Inr q' \<and> select q' = JNull))
   \<and> (typeof r = ''object'' \<and> fst (buildQuery s r) = Inr q \<longrightarrow>
        (\<exists>rest. select q = JString (''SELECT'' @ rest)))
   \<and> (wf_request r \<and> valid_dates s \<longrightarrow>
        (\<exists>q' rest. fst (buildQuery s r) = Inr q' \<and> select q' = JString (''SELECT'' @ rest)))"
proof -
  have a: "typeof r \<noteq> ''object'' \<longrightarrow> (\<exists>q'. fst (buildQuery s r) = Inr q' \<and> select q' = JNull)"
    by (simp add: buildQuery_not_object)
  have b: "typeof r = ''object'' \<and> fst (buildQuery s r) = Inr q \<longrightarrow>
        (\<exists>rest. select q = JString (''SELECT'' @ rest))"
    using buildQuery_object_Inr build_statements_SELECT by blast
  have c: "wf_request r \<and> valid_dates s \<longrightarrow>
        (\<exists>q' rest. fst (buildQuery s r) = Inr q' \<and> select q' = JString (''SELECT'' @ rest))"
  proof
    assume wf: "wf_request r \<and> valid_dates s"
    then obtain q' where q': "fst (buildQuery s r) = Inr q'"
      using buildQuery_wf_total by blast
    from wf have "typeof r = ''object''"
      by (simp add: wf_request_def plain_object_typeof)
    with q' show "\<exists>q' rest. fst (buildQuery s r) = Inr q'
                    \<and> select q' = JString (''SELECT'' @ rest)"
      using buildQuery_object_Inr build_statements_SELECT by blast
  qed
  from a b c show ?thesis by blast
qed

theorem C9_select_prefix_witness:
  "(\<exists>q. fst (buildQuery users_config (JNumber (Num 7))) = Inr q \<and> select q = JNull)
   \<and> wf_request ann_request \<and> valid_dates users_config
   \<and> (\<exists>q rest. fst (buildQuery users_config ann_request) = Inr q
         \<and> select q = JString (''SELECT'' @ rest))"
  using C9_select_prefix [of "JNumber (Num 7)" users_config]
    C9_select_prefix [of ann_request users_config] wf_ann_request valid_dates_samples(1)
  by simp

section \<open>The LIMIT clause\<close>

lemma ge_zero_iff: "ge_zero x \<longleftrightarrow> (\<exists>n. x = Num n \<and> 0 \<le> n)"
  by (cases x) auto

lemma safe_nonneg: "0 \<le> n \<Longrightarrow> n \<le> MAX_SAFE_INTEGER \<Longrightarrow> safe_integer n"
  by (simp add: safe_integer_def MAX_SAFE_INTEGER_def)

lemma string_of_num_safe: "safe_integer n \<Longrightarrow> string_of_num (Num n) = Inr (decimal n)"
  by simp

lemma buildLimitPartial_oracle:
  "dbType s = Some ''oracle'' \<Longrightarrow> buildLimitPartial s r = Inr []"
  by (simp add: buildLimitPartial_def)

lemma buildLimitPartial_nonempty:
  assumes "buildLimitPartial s r = Inr lim" "lim \<noteq> []"
  shows "\<exists>st n. get r ''start'' = Inr st \<and> parseInt st = Inr (Num n) \<and> 0 \<le> n"
proof -
  from assms have c: "truthy r" "get r ''start'' \<noteq> Inr JUndefined"
    by (auto simp: buildLimitPartial_def split: if_splits)
  from c(1) obtain st where st: "get r ''start'' = Inr st"
    using get_truthy[of r "''start''"] by auto
  with assms c obtain a where a: "parseInt st = Inr a"
    by (cases "parseInt st") (auto simp: buildLimitPartial_def split: if_splits)
  with assms c st have "ge_zero a"
    by (auto simp: buildLimitPartial_def split: if_splits)
  with st a show ?thesis by (auto simp: ge_zero_iff)
qed

lemma start_parses:
  assumes "get r ''start'' = Inr st" "parseInt st = Inr (Num n)"
  shows "truthy r \<and> st \<noteq> JUndefined"
proof -
  from assms(2) have st: "st \<noteq> JUndefined" by (auto simp: parseInt_not_a_number)
  have "\<not> truthy r \<Longrightarrow> get r ''start'' = Inl TypeError \<or> get r ''start'' = Inr JUndefined"
    by (cases r) (auto simp: index_of_key_def)
  with assms(1) st show ?thesis by auto
qed

lemma buildLimitPartial_negative:
  assumes "dbType s \<noteq> Some ''oracle''" "get r ''start'' = Inr st"
    "parseInt st = Inr (Num n)" "0 \<le> n" "get r ''length'' = Inr l" "lt_zero l = Inr True"
  shows "buildLimitPartial s r = Inr '' ''"
  using assms start_parses[OF assms(2,3)] by (simp add: buildLimitPartial_def)

lemma buildLimitPartial_page:
  assumes "dbType s \<noteq> Some ''oracle''" "get r ''start'' = Inr st"
    "parseInt st = Inr (Num n)" "0 \<le> n" "get r ''length'' = Inr l" "lt_zero l = Inr False"
    "parseInt l = Inr (Num k)" "0 < k"
  shows "buildLimitPartial s r
           = Inr ((if dbType s = Some ''postgres''
                   then '' OFFSET '' @ decimal n @ '' LIMIT ''
                   else '' LIMIT '' @ decimal n @ '', '') @ decimal k)"
  using assms start_parses[OF assms(2,3)] parseInt_safe[OF assms(3)] parseInt_safe[OF assms(7)]
  by (simp add: buildLimitPartial_def)

lemma buildLimitPartial_default:
  assumes "dbType s \<noteq> Some ''oracle''" "get r ''start'' = Inr st"
    "parseInt st = Inr (Num n)" "0 \<le> n" "get r ''length'' = Inr l" "lt_zero l = Inr False"
    "parseInt l = Inr len" "\<not> gt_zero len"
  shows "buildLimitPartial s r
           = Inr ((if dbType s = Some ''postgres''
                   then '' OFFSET '' @ decimal n @ '' LIMIT ''
                   else '' LIMIT '' @ decimal n @ '', '') @ ''100'')"
  using assms start_parses[OF assms(2,3)] parseInt_safe[OF assms(3)]
  by (simp add: buildLimitPartial_def default_limit_text del: string_of_num.simps(2)
        add: string_of_num_safe)

lemma buildLimitPartial_fields:
  assumes "dbType s \<noteq> Some ''oracle''" "0 \<le> n" "safe_integer n" "safe_integer k"
    "get r ''start'' = Inr st" "parseInt st = Inr (Num n)"
    "get r ''length'' = Inr l" "parseInt l = Inr (Num k)" "lt_zero l = Inr (k < 0)"
  shows "buildLimitPartial s r
           = Inr (if k < 0 then '' ''
                  else (if dbType s = Some ''postgres''
                        then '' OFFSET '' @ decimal n @ '' LIMIT ''
                        else '' LIMIT '' @ decimal n @ '', '')
                       @ (if 0 < k then decimal k else ''100''))"
proof (cases "k < 0")
  case True
  with assms show ?thesis
    using buildLimitPartial_negative[of s r st n l] by simp
next
  case False
  show ?thesis
  proof (cases "0 < k")
    case True
    with False assms show ?thesis
      using buildLimitPartial_page[of s r st n l k] by simp
  next
    case zero: False
    with False assms show ?thesis
      using buildLimitPartial_default[of s r st n l "Num k"] by simp
  qed
qed

lemma buildLimitPartial_numbers:
  assumes "dbType s \<noteq> Some ''oracle''" "0 \<le> n" "n \<le> MAX_SAFE_INTEGER" "safe_integer k"
    "map_of kvs ''start'' = Some (JNumber (Num n))"
    "map_of kvs ''length'' = Some (JNumber (Num k))"
  shows "buildLimitPartial s (JObject kvs)
           = Inr (if k < 0 then '' ''
                  else (if dbType s = Some ''postgres''
                        then '' OFFSET '' @ decimal n @ '' LIMIT ''
                        else '' LIMIT '' @ decimal n @ '', '')
                       @ (if 0 < k then decimal k else ''100''))"
proof -
  have n: "safe_integer n" using assms(2,3) by (rule safe_nonneg)
  show ?thesis
    using assms(5,6)
    by (intro buildLimitPartial_fields[OF assms(1,2) n assms(4),
            of _ "JNumber (Num n)" "JNumber (Num k)"])
       (simp_all add: parseInt_number n assms(4))
qed

text \<open>The decimal text of an integer, as a request with text fields carries it.\<close>

lemma trim_plain:
  assumes "t \<noteq> []" "\<not> is_ws (hd t)" "\<not> is_ws (last t)"
  shows "trim t = t"
proof -
  from assms(1,2) have a: "dropWhile is_ws t = t" by (cases t) auto
  from assms(1,3) have "dropWhile is_ws (rev t) = rev t"
    by (cases "rev t") (auto simp: last_rev hd_rev)
  with a show ?thesis by (simp add: trim_def)
qed

lemma digits_unsigned_nonzero:
  assumes "list_all is_digit ds" "ds \<noteq> []"
  shows "unsigned_nonzero ds \<longleftrightarrow> 0 < nat_of_digits ds"
proof -
  have tw: "takeWhile is_digit ds = ds" "dropWhile is_digit ds = []"
    using assms(1) by (simp_all add: list_all_iff)
  have "\<not> is_digit (CHR ''I'')" by (simp add: is_digit_def)
  with assms have ninf: "ds \<noteq> ''Infinity''" by auto
  have "unsigned_nonzero ds
          = (let ip = takeWhile is_digit ds; r1 = dropWhile is_digit ds;
                 hasdot = (r1 \<noteq> [] \<and> hd r1 = CHR ''.'');
                 r2 = (if hasdot then tl r1 else r1);
                 fp = (if hasdot then takeWhile is_digit r2 else []);
                 r3 = (if hasdot then dropWhile is_digit r2 else r2)
             in if ip = [] \<and> fp = [] then False
                else (case exponent_of r3 of
                        None \<Rightarrow> False
                      | Some e \<Rightarrow>
                          (let m = nat_of_digits (ip @ fp);
                               e' = e - int (length fp)
                           in 0 < m \<and> (0 \<le> e' \<or> 10 ^ nat (- e') < int m * 2 ^ 1075))))"
    using ninf by (simp add: unsigned_nonzero_def)
  then show ?thesis
    unfolding tw Let_def using assms(2) by (simp add: exponent_of_def)
qed

lemma str_negative_decimal: "str_negative (decimal k) \<longleftrightarrow> k < 0"
proof (cases "k < 0")
  case True
  let ?ds = "string_of_nat (nat (- k))"
  have d: "list_all is_digit ?ds" "?ds \<noteq> []" using string_of_nat_digits by auto
  then have "is_digit (last ?ds)" by (simp add: list_all_iff)
  then have "\<not> is_ws (last (CHR ''-'' # ?ds))" using d(2) by (simp add: not_ws_digit)
  then have "trim (CHR ''-'' # ?ds) = CHR ''-'' # ?ds"
    by (intro trim_plain) (simp_all add: is_ws_def)
  with True d show ?thesis
    by (simp add: str_negative_def decimal_def digits_unsigned_nonzero
          nat_of_digits_string_of_nat)
next
  case False
  let ?ds = "string_of_nat (nat k)"
  have d: "list_all is_digit ?ds" "?ds \<noteq> []" using string_of_nat_digits by auto
  then have hl: "is_digit (hd ?ds)" "is_digit (last ?ds)"
    by (simp_all add: list_all_iff)
  then have "trim ?ds = ?ds"
    using d(2) by (intro trim_plain) (simp_all add: not_ws_digit)
  moreover have "hd ?ds \<noteq> CHR ''-''" using hl(1) by (auto simp: is_digit_def)
  ultimately show ?thesis using False by (simp add: str_negative_def decimal_def)
qed

lemma buildLimitPartial_texts:
  assumes "dbType s \<noteq> Some ''oracle''" "0 \<le> n" "n \<le> MAX_SAFE_INTEGER" "safe_integer k"
    "map_of kvs ''start'' = Some (JString (decimal n))"
    "map_of kvs ''length'' = Some (JString (decimal k))"
  shows "buildLimitPartial s (JObject kvs)
           = Inr (if k < 0 then '' ''
                  else (if dbType s = Some ''postgres''
                        then '' OFFSET '' @ decimal n @ '' LIMIT ''
                        else '' LIMIT '' @ decimal n @ '', '')
                       @ (if 0 < k then decimal k else ''100''))"
proof -
  have n: "safe_integer n" using assms(2,3) by (rule safe_nonneg)
  show ?thesis
    using assms(5,6)
    by (intro buildLimitPartial_fields[OF assms(1,2) n assms(4),
            of _ "JString (decimal n)" "JString (decimal k)"])
       (simp_all add: parseInt_string parseInt_str_decimal n assms(4) str_negative_decimal)
qed

text \<open>
  Claim C7. \<open>buildLimitPartial\<close> returns the empty string for every request when the
  dialect is oracle. In the other dialects a non-empty clause comes only from a request
  whose \<open>start\<close> parses as a non-negative integer; and when it does, the clause is a single
  space if \<open>length < 0\<close>, and otherwise \<open>OFFSET start LIMIT len\<close> for postgres and
  \<open>LIMIT start, len\<close> for the others, \<open>len\<close> being the parsed length when positive and
  \<open>100\<close> otherwise. The last two parts state the same for a request object whose
  \<open>start\<close> and \<open>length\<close> are integers, given as numbers or as their decimal text. All
  integers are safe integers, of magnitude at most \<open>2 ^ 53 - 1\<close>: those \<open>parseInt\<close>
  returns in this model are, and the numbers of the request are assumed to be.
\<close>

theorem C7_buildLimitPartial:
  "(dbType s = Some ''oracle'' \<longrightarrow> buildLimitPartial s r = Inr [])
   \<and> (buildLimitPartial s r = Inr lim \<and> lim \<noteq> [] \<longrightarrow>
        (\<exists>st n. get r ''start'' = Inr st \<and> parseInt st = Inr (Num n) \<and> 0 \<le> n))
   \<and> (dbType s \<noteq> Some ''oracle'' \<and> get r ''start'' = Inr st
        \<and> parseInt st = Inr (Num n) \<and> 0 \<le> n \<and> n \<le> MAX_SAFE_INTEGER
        \<and> get r ''length'' = Inr l \<longrightarrow>
        (lt_zero l = Inr True \<longrightarrow> buildLimitPartial s r = Inr '' '')
        \<and> (lt_zero l = Inr False \<and> parseInt l = Inr (Num k) \<and> 0 < k
             \<and> k \<le> MAX_SAFE_INTEGER \<longrightarrow>
             buildLimitPartial s r
               = Inr ((if dbType s = Some ''postgres''
                       then '' OFFSET '' @ decimal n @ '' LIMIT ''
                       else '' LIMIT '' @ decimal n @ '', '') @ decimal k))
        \<and> (lt_zero l = Inr False \<and> parseInt l = Inr len \<and> \<not> gt_zero len \<longrightarrow>
             buildLimitPartial s r
               = Inr ((if dbType s = Some ''postgres''
                       then '' OFFSET '' @ decimal n @ '' LIMIT ''
                       else '' LIMIT '' @ decimal n @ '', '') @ ''100'')))
   \<and> (dbType s \<noteq> Some ''oracle'' \<and> 0 \<le> n \<and> n \<le> MAX_SAFE_INTEGER \<and> safe_integer k
        \<and> (map_of kvs ''start'' = Some (JNumber (Num n))
             \<and> map_of kvs ''length'' = Some (JNumber (Num k))
            \<or> map_of kvs ''start'' = Some (JString (decimal n))
             \<and> map_of kvs ''length'' = Some (JString (decimal k))) \<longrightarrow>
        buildLimitPartial s (JObject kvs)
          = Inr (if k < 0 then '' ''
                 else (if dbType s = Some ''postgres''
                       then '' OFFSET '' @ decimal n @ '' LIMIT ''
                       else '' LIMIT '' @ decimal n @ '', '')
                      @ (if 0 < k then decimal k else ''100'')))"
  using buildLimitPartial_oracle[of s r] buildLimitPartial_nonempty[of s r lim]
    buildLimitPartial_negative[of s r st n l] buildLimitPartial_page[of s r st n l k]
    buildLimitPartial_default[of s r st n l len]
    buildLimitPartial_numbers[of s n k kvs] buildLimitPartial_texts[of s n k kvs]
  by blast

lemma decimal_texts:
  "decimal 10 = ''10''" "decimal 20 = ''20''" "decimal 0 = ''0''" "decimal (- 1) = ''-1''"
  "decimal 1 = ''1''"
  by code_simp+

lemma small_safe:
  "safe_integer 20" "safe_integer 0" "safe_integer (- 1)" "10 \<le> MAX_SAFE_INTEGER"
  "0 \<le> MAX_SAFE_INTEGER"
  by code_simp+

theorem C7_buildLimitPartial_witness:
  "buildLimitPartial users_config
     (JObject [(''start'', JNumber (Num 10)), (''length'', JNumber (Num 20))])
     = Inr '' OFFSET 10 LIMIT 20''
   \<and> buildLimitPartial orders_config
       (JObject [(''start'', JNumber (Num 10)), (''length'', JNumber (Num 20))])
     = Inr '' LIMIT 10, 20''
   \<and> buildLimitPartial (orders_config\<lparr>dbType := Some ''oracle''\<rparr>) (page_request ''10'' ''20'')
     = Inr []
   \<and> buildLimitPartial orders_config (page_request ''10'' ''-1'') = Inr '' ''
   \<and> buildLimitPartial orders_config (page_request ''10'' ''0'') = Inr '' LIMIT 10, 100''
   \<and> buildLimitPartial users_config (page_request ''10'' ''20'') = Inr '' OFFSET 10 LIMIT 20''
   \<and> (\<exists>st n. get (page_request ''10'' ''0'') ''start'' = Inr st
         \<and> parseInt st = Inr (Num n) \<and> 0 \<le> n)"
proof -
  let ?kvs = "[(''start'', JNumber (Num 10)), (''length'', JNumber (Num 20))]"
  have w1: "buildLimitPartial users_config (JObject ?kvs) = Inr '' OFFSET 10 LIMIT 20''"
    using C7_buildLimitPartial
            [of users_config JNull "[]" JNull 10 JNull 20 NaN ?kvs]
    by (simp add: decimal_texts small_safe users_config_def)
  have w2: "buildLimitPartial orders_config (JObject ?kvs) = Inr '' LIMIT 10, 20''"
    using C7_buildLimitPartial
            [of orders_config JNull "[]" JNull 10 JNull 20 NaN ?kvs]
    by (simp add: decimal_texts small_safe orders_config_def)
  have w3: "buildLimitPartial (orders_config\<lparr>dbType := Some ''oracle''\<rparr>)
              (page_request ''10'' ''20'') = Inr []"
    using C7_buildLimitPartial
            [of "orders_config\<lparr>dbType := Some ''oracle''\<rparr>" "page_request ''10'' ''20''"
                "[]" JNull 0 JNull 0 NaN "[]"]
    by simp
  have w4: "buildLimitPartial orders_config (page_request ''10'' ''-1'') = Inr '' ''"
    using C7_buildLimitPartial
            [of orders_config JNull "[]" JNull 10 JNull "- 1" NaN
                "[(''start'', JString ''10''), (''length'', JString ''-1'')]"]
    by (simp add: decimal_texts small_safe orders_config_def page_request_def)
  have w5: "buildLimitPartial orders_config (page_request ''10'' ''0'') = Inr '' LIMIT 10, 100''"
    using C7_buildLimitPartial
            [of orders_config JNull "[]" JNull 10 JNull 0 NaN
                "[(''start'', JString ''10''), (''length'', JString ''0'')]"]
    by (simp add: decimal_texts small_safe orders_config_def page_request_def)
  have w6: "buildLimitPartial users_config (page_request ''10'' ''20'')
              = Inr '' OFFSET 10 LIMIT 20''"
    using C7_buildLimitPartial
            [of users_config JNull "[]" JNull 10 JNull 20 NaN
                "[(''start'', JString ''10''), (''length'', JString ''20'')]"]
    by (simp add: decimal_texts small_safe users_config_def page_request_def)
  have w7: "\<exists>st n. get (page_request ''10'' ''0'') ''start'' = Inr st
              \<and> parseInt st = Inr (Num n) \<and> 0 \<le> n"
    using C7_buildLimitPartial
            [of orders_config "page_request ''10'' ''0''" "'' LIMIT 10, 100''" JNull 0
                JNull 0 NaN "[]"] w5
    by simp
  from w1 w2 w3 w4 w5 w6 w7 show ?thesis by blast
qed

section \<open>Oracle pagination\<close>

lemma buildQuery_object_ex:
  assumes "typeof r = ''object''" "r \<noteq> JNull"
  shows "\<exists>v. fst (buildQuery s r) = build_statements s r v"
proof -
  from assms have "isObject r" by (auto simp: typeof_object)
  then obtain srch where srch: "get r ''search'' = Inr srch"
    using get_isObject by blast
  show ?thesis
  proof (cases "isObject srch")
    case True
    then obtain v where "get srch ''value'' = Inr v" using get_isObject by blast
    with assms srch True show ?thesis by (auto simp: buildQuery_def Let_def)
  next
    case False
    with assms srch show ?thesis by (auto simp: buildQuery_def Let_def)
  qed
qed

lemma oracle_wrap_page:
  assumes "dbType s = Some ''oracle''" "get r ''start'' = Inr st" "parseInt st = Inr (Num n)"
    "0 \<le> n" "get r ''length'' = Inr l" "parseInt l = Inr (Num m)" "0 \<le> m"
    "n + 1 \<le> MAX_SAFE_INTEGER" "n + m \<le> MAX_SAFE_INTEGER"
  shows "oracle_wrap s r query
           = Inr (''SELECT * FROM (SELECT a.*, ROWNUM rnum FROM ('' @ query
                  @ '') a) WHERE rnum BETWEEN '' @ decimal (n + 1)
                  @ '' AND '' @ decimal (n + m))"
proof -
  have "safe_integer (n + 1)" "safe_integer (n + m)"
    using assms(4,7,8,9) by (simp_all add: safe_nonneg)
  with assms(1-7) show ?thesis
    by (simp add: oracle_wrap_def)
qed

text \<open>
  Claim C8. For the dialect oracle and a request of type object whose \<open>start\<close> and
  \<open>length\<close> parse as the non-negative integers \<open>n\<close> and \<open>m\<close>, \<open>buildQuery\<close> returns (when
  the WHERE and ORDER composers return) the inner select, with no LIMIT clause, wrapped
  in the ROWNUM query with the bounds \<open>n + 1\<close> and \<open>n + m\<close>. The two bounds are to be safe
  integers, at most \<open>2 ^ 53 - 1\<close>, where the additions of the source are exact and the
  bounds are written in full decimal.
\<close>

theorem C8_oracle_rownum:
  assumes "dbType s = Some ''oracle''" "typeof r = ''object''"
    and "get r ''start'' = Inr st" "parseInt st = Inr (Num n)" "0 \<le> n"
    and "get r ''length'' = Inr l" "parseInt l = Inr (Num m)" "0 \<le> m"
    and "n + 1 \<le> MAX_SAFE_INTEGER" "n + m \<le> MAX_SAFE_INTEGER"
    and "buildWherePartial s r = Inr wh" "buildOrderingPartial r = Inr ord"
  shows "\<exists>q. fst (buildQuery s r) = Inr q
           \<and> select q
               = JString (''SELECT * FROM (SELECT a.*, ROWNUM rnum FROM (''
                          @ buildSelectPartial s @ wh @ ord
                          @ '') a) WHERE rnum BETWEEN '' @ decimal (n + 1)
                          @ '' AND '' @ decimal (n + m))"
proof -
  from assms(3) have "r \<noteq> JNull" by auto
  with assms(2) obtain v where v: "fst (buildQuery s r) = build_statements s r v"
    using buildQuery_object_ex by blast
  have lim: "buildLimitPartial s r = Inr []"
    using assms(1) by (rule buildLimitPartial_oracle)
  have "oracle_wrap s r (buildSelectPartial s @ wh @ ord @ [])
          = Inr (''SELECT * FROM (SELECT a.*, ROWNUM rnum FROM (''
                 @ (buildSelectPartial s @ wh @ ord @ [])
                 @ '') a) WHERE rnum BETWEEN '' @ decimal (n + 1)
                 @ '' AND '' @ decimal (n + m))"
    using assms(1,3-10) by (rule oracle_wrap_page)
  from build_statements_intro[OF assms(11,12) lim this, of v] v
  show ?thesis by simp
qed

lemma ann_oracle_parts:
  "buildWherePartial (users_config\<lparr>dbType := Some ''oracle''\<rparr>) ann_request
     = Inr ('' WHERE ((name LIKE '' @ [CHR 0x27] @ ''%ann%'' @ [CHR 0x27]
            @ '' OR email LIKE '' @ [CHR 0x27] @ ''%ann%'' @ [CHR 0x27] @ ''))'')"
  "buildOrderingPartial ann_request = Inr '' ORDER BY name asc''"
  "buildSelectPartial (users_config\<lparr>dbType := Some ''oracle''\<rparr>) = ''SELECT * FROM users''"
  "get ann_request ''start'' = Inr (JNumber (Num 0))"
  "get ann_request ''length'' = Inr (JNumber (Num 10))"
  "safe_integer 10" "(0::int) + 1 \<le> MAX_SAFE_INTEGER" "(0::int) + 10 \<le> MAX_SAFE_INTEGER"
  by code_simp+

theorem C8_oracle_rownum_witness:
  "\<exists>q. fst (buildQuery (users_config\<lparr>dbType := Some ''oracle''\<rparr>) ann_request) = Inr q
      \<and> select q
          = JString (''SELECT * FROM (SELECT a.*, ROWNUM rnum FROM (SELECT * FROM users''
                     @ '' WHERE ((name LIKE '' @ [CHR 0x27] @ ''%ann%'' @ [CHR 0x27]
                     @ '' OR email LIKE '' @ [CHR 0x27] @ ''%ann%'' @ [CHR 0x27] @ ''))''
                     @ '' ORDER BY name asc'' @ '') a) WHERE rnum BETWEEN 1 AND 10'')"
proof -
  have t: "typeof ann_request = ''object''" by (simp add: ann_request_def)
  have d: "dbType (users_config\<lparr>dbType := Some ''oracle''\<rparr>) = Some ''oracle''" by simp
  have p: "parseInt (JNumber (Num 0)) = Inr (Num 0)" "parseInt (JNumber (Num 10)) = Inr (Num 10)"
    by (simp_all add: parseInt_number small_safe ann_oracle_parts(6))
  show ?thesis
    using C8_oracle_rownum [OF d t ann_oracle_parts(4) p(1) _
        ann_oracle_parts(5) p(2) _ ann_oracle_parts(7,8) ann_oracle_parts(1,2)]
    by (simp add: ann_oracle_parts(3) decimal_texts)
qed

section \<open>The global search group\<close>

lemma escape_char_nonempty: "escape_char c \<noteq> []"
  by (simp add: escape_char_def)

lemma sanitize_string_truthy:
  "truthy (sanitize (JString c)) \<longleftrightarrow> c \<noteq> [] \<and> length c \<le> 256"
  by (cases c) (auto simp: sanitize_def sanitize_len_def escape_char_nonempty)

lemma like_strings:
  "(if dbType s = Some ''postgres'' then buildILIKESearch (JString a) (JString b)
    else buildLIKESearch (JString a) (JString b)) = Inr (pattern_match s a b)"
  by (simp add: buildILIKESearch_def buildLIKESearch_def pattern_match_def)

lemma each_loop_map_filter:
  assumes "\<And>x acc. x \<in> set xs \<Longrightarrow> f x acc = Inr (if P x then acc @ [g x] else acc)"
  shows "each_loop f xs acc = Inr (acc @ map g (filter P xs))"
  using assms
proof (induction xs arbitrary: acc)
  case Nil
  then show ?case by simp
next
  case (Cons x xs)
  have "f x acc = Inr (if P x then acc @ [g x] else acc)" by (simp add: Cons.prems)
  moreover have "each_loop f xs acc' = Inr (acc' @ map g (filter P xs))" for acc'
    by (rule Cons.IH) (simp add: Cons.prems)
  ultimately show ?case by simp
qed

lemma search_column_custom:
  assumes "get r ''search'' = Inr srch" "get srch ''value'' = Inr v"
  shows "search_column s r True True (JString c) acc
           = Inr (if truthy (sanitize (JString c)) \<and> truthy (sanitize v)
                  then acc @ [pattern_match s (chars_of (sanitize (JString c)))
                                (chars_of (sanitize v))]
                  else acc)"
proof (cases "truthy (sanitize (JString c)) \<and> truthy (sanitize v)")
  case True
  then obtain a b where ab: "sanitize (JString c) = JString a" "sanitize v = JString b"
    using sanitize_truthy by blast
  with True assms like_strings[of s a b] show ?thesis
    by (auto simp: search_column_def Let_def split: if_splits)
next
  case False
  with assms show ?thesis by (auto simp: search_column_def Let_def)
qed

lemma search_column_global_fallback:
  assumes "get r ''search'' = Inr srch" "get srch ''value'' = Inr v" "wf_column c"
  shows "search_column s r True False c acc
           = Inr (if own_prop c ''searchable'' = JString ''true''
                     \<and> truthy (sanitize (own_prop c ''name'')) \<and> truthy (sanitize v)
                  then acc @ [pattern_match s (chars_of (sanitize (own_prop c ''name'')))
                                (chars_of (sanitize v))]
                  else acc)"
proof -
  from assms(3) have po: "is_plain_object c" by (simp add: wf_column_def)
  note g = get_plain_object[OF po]
  show ?thesis
  proof (cases "truthy (sanitize (own_prop c ''name'')) \<and> truthy (sanitize v)")
    case True
    then obtain a b where
      ab: "sanitize (own_prop c ''name'') = JString a" "sanitize v = JString b"
      using sanitize_truthy by blast
    with True assms(1,2) like_strings[of s a b] show ?thesis
      by (auto simp: search_column_def Let_def g split: if_splits)
  next
    case False
    with assms(1,2) show ?thesis by (auto simp: search_column_def Let_def g)
  qed
qed

lemma buildSearchArray_custom:
  assumes "aSearchColumns s \<noteq> []" "get r ''search'' = Inr srch" "get srch ''value'' = Inr v"
  shows "buildSearchArray s r True
           = Inr (if truthy (sanitize v)
                  then map (\<lambda>c. pattern_match s (concat (map escape_char c))
                                  (chars_of (sanitize v)))
                         (filter (\<lambda>c. c \<noteq> [] \<and> length c \<le> 256) (aSearchColumns s))
                  else [])"
proof -
  let ?P = "\<lambda>x. truthy (sanitize x) \<and> truthy (sanitize v)"
  let ?g = "\<lambda>x. pattern_match s (chars_of (sanitize x)) (chars_of (sanitize v))"
  have "each_loop (search_column s r True True) (map JString (aSearchColumns s)) []
          = Inr ([] @ map ?g (filter ?P (map JString (aSearchColumns s))))"
    by (rule each_loop_map_filter) (auto simp: search_column_custom[OF assms(2,3)])
  moreover have "map ?g (filter ?P (map JString cs))
          = (if truthy (sanitize v)
             then map (\<lambda>c. pattern_match s (concat (map escape_char c)) (chars_of (sanitize v)))
                    (filter (\<lambda>c. c \<noteq> [] \<and> length c \<le> 256) cs)
             else [])" for cs
    by (induction cs) (auto simp: sanitize_string_truthy sanitize_escape)
  ultimately show ?thesis
    using assms(1) by (simp add: buildSearchArray_def)
qed

lemma buildSearchArray_fallback:
  assumes "aSearchColumns s = []" "get r ''search'' = Inr srch" "get srch ''value'' = Inr v"
    "get r ''columns'' = Inr (JArray cols)" "list_all wf_column cols"
  shows "buildSearchArray s r True
           = Inr (if truthy (sanitize v)
                  then map (\<lambda>c. pattern_match s (chars_of (sanitize (own_prop c ''name'')))
                                  (chars_of (sanitize v)))
                         (filter (\<lambda>c. own_prop c ''searchable'' = JString ''true''
                                       \<and> truthy (sanitize (own_prop c ''name''))) cols)
                  else [])"
proof -
  let ?P = "\<lambda>c. own_prop c ''searchable'' = JString ''true''
                \<and> truthy (sanitize (own_prop c ''name'')) \<and> truthy (sanitize v)"
  let ?g = "\<lambda>c. pattern_match s (chars_of (sanitize (own_prop c ''name'')))
                  (chars_of (sanitize v))"
  have "each_loop (search_column s r True False) cols [] = Inr ([] @ map ?g (filter ?P cols))"
    using assms(5)
    by (intro each_loop_map_filter)
       (simp add: search_column_global_fallback[OF assms(2,3)] list_all_iff)
  moreover have "filter ?P cols
          = (if truthy (sanitize v)
             then filter (\<lambda>c. own_prop c ''searchable'' = JString ''true''
                                \<and> truthy (sanitize (own_prop c ''name''))) cols
             else [])"
    by simp
  ultimately show ?thesis
    using assms(1,4) by (simp add: buildSearchArray_def)
qed

lemma buildSearchPartial_groups:
  assumes "buildSearchArray s r False = Inr cs" "buildSearchArray s r True = Inr gs"
  shows "buildSearchPartial s r
           = Inr (join '' AND ''
                    ((if cs \<noteq> [] then [''('' @ join '' AND '' cs @ '')''] else [])
                     @ (if gs \<noteq> [] then [''('' @ join '' OR '' gs @ '')''] else [])))"
  using assms by (simp add: buildSearchPartial_def Let_def)

text \<open>
  Claim C3, as stated, fails: with an empty allow-list the global group is still
  emitted, over the request's own searchable columns.
\<close>

theorem C3_fallback_counterexample:
  "aSearchColumns orders_config = []
   \<and> buildSearchArray orders_config ann_request True
       = Inr [''name LIKE '' @ [CHR 0x27] @ ''%ann%'' @ [CHR 0x27]]
   \<and> buildSearchPartial orders_config ann_request
       = Inr (''(name LIKE '' @ [CHR 0x27] @ ''%ann%'' @ [CHR 0x27] @ '')'')"
  by code_simp

text \<open>
  Claim C3, amended. With a non-empty allow-list, the predicates of the global group are
  one pattern match per allow-listed column that the sanitizer accepts (non-empty, at
  most 256 characters), on the escaped column name, against the sanitized global search
  value, provided that value is non-empty; otherwise there are none. With an empty
  allow-list the global group ranges instead over the request's columns whose
  \<open>searchable\<close> is \<open>"true"\<close> and whose sanitized name is non-empty. The group is put in
  parentheses and OR-joined exactly when it has a predicate.
\<close>

theorem C3_global_search_group:
  "(aSearchColumns s \<noteq> [] \<and> get r ''search'' = Inr srch \<and> get srch ''value'' = Inr v \<longrightarrow>
      buildSearchArray s r True
        = Inr (if truthy (sanitize v)
               then map (\<lambda>c. pattern_match s (concat (map escape_char c))
                               (chars_of (sanitize v)))
                      (filter (\<lambda>c. c \<noteq> [] \<and> length c \<le> 256) (aSearchColumns s))
               else []))
   \<and> (aSearchColumns s = [] \<and> get r ''search'' = Inr srch \<and> get srch ''value'' = Inr v
        \<and> get r ''columns'' = Inr (JArray cols) \<and> list_all wf_column cols \<longrightarrow>
        buildSearchArray s r True
          = Inr (if truthy (sanitize v)
                 then map (\<lambda>c. pattern_match s (chars_of (sanitize (own_prop c ''name'')))
                                 (chars_of (sanitize v)))
                        (filter (\<lambda>c. own_prop c ''searchable'' = JString ''true''
                                      \<and> truthy (sanitize (own_prop c ''name''))) cols)
                 else []))
   \<and> (buildSearchArray s r False = Inr cs \<and> buildSearchArray s r True = Inr gs \<longrightarrow>
        buildSearchPartial s r
          = Inr (join '' AND ''
                   ((if cs \<noteq> [] then [''('' @ join '' AND '' cs @ '')''] else [])
                    @ (if gs \<noteq> [] then [''('' @ join '' OR '' gs @ '')''] else []))))"
  using buildSearchArray_custom[of s r srch v] buildSearchArray_fallback[of s r srch v cols]
    buildSearchPartial_groups[of s r cs gs]
  by blast

lemma ann_search_parts:
  "get ann_request ''search'' = Inr (JObject [(''value'', JString ''ann'')])"
  "get (JObject [(''value'', JString ''ann'')]) ''value'' = Inr (JString ''ann'')"
  "sanitize (JString ''ann'') = JString ''ann''"
  "buildSearchArray users_config ann_request False = Inr []"
  "get (JObject [(''search'', JObject [(''value'', JString [])])]) ''search''
     = Inr (JObject [(''value'', JString [])])"
  "get (JObject [(''value'', JString [])]) ''value'' = Inr (JString [])"
  "sanitize (JString []) = JString []"
  by code_simp+

theorem C3_global_search_group_witness:
  "buildSearchArray users_config ann_request True
     = Inr [''CAST(name as text) ILIKE '' @ [CHR 0x27] @ ''%ann%'' @ [CHR 0x27],
            ''CAST(email as text) ILIKE '' @ [CHR 0x27] @ ''%ann%'' @ [CHR 0x27]]
   \<and> buildSearchArray users_config (JObject [(''search'', JObject [(''value'', JString [])])]) True
       = Inr []
   \<and> buildSearchPartial users_config ann_request
       = Inr (''(CAST(name as text) ILIKE '' @ [CHR 0x27] @ ''%ann%'' @ [CHR 0x27]
              @ '' OR CAST(email as text) ILIKE '' @ [CHR 0x27] @ ''%ann%'' @ [CHR 0x27]
              @ '')'')"
proof -
  have cols: "aSearchColumns users_config = [''name'', ''email'']"
    and pg: "dbType users_config = Some ''postgres''"
    by (simp_all add: users_config_def)
  have w1: "buildSearchArray users_config ann_request True
     = Inr [''CAST(name as text) ILIKE '' @ [CHR 0x27] @ ''%ann%'' @ [CHR 0x27],
            ''CAST(email as text) ILIKE '' @ [CHR 0x27] @ ''%ann%'' @ [CHR 0x27]]"
    using C3_global_search_group
            [of users_config ann_request "JObject [(''value'', JString ''ann'')]"
                "JString ''ann''" "[]" "[]" "[]"]
    by (simp add: cols pg ann_search_parts pattern_match_def escape_char_def)
  have w2: "buildSearchArray users_config
              (JObject [(''search'', JObject [(''value'', JString [])])]) True = Inr []"
    using C3_global_search_group
            [of users_config "JObject [(''search'', JObject [(''value'', JString [])])]"
                "JObject [(''value'', JString [])]" "JString []" "[]" "[]" "[]"]
    by (simp add: cols ann_search_parts del: get.simps)
  have w3: "buildSearchPartial users_config ann_request
       = Inr (''(CAST(name as text) ILIKE '' @ [CHR 0x27] @ ''%ann%'' @ [CHR 0x27]
              @ '' OR CAST(email as text) ILIKE '' @ [CHR 0x27] @ ''%ann%'' @ [CHR 0x27]
              @ '')'')"
    using C3_global_search_group
            [of users_config ann_request JNull JNull "[]" "[]"
                "[''CAST(name as text) ILIKE '' @ [CHR 0x27] @ ''%ann%'' @ [CHR 0x27],
                  ''CAST(email as text) ILIKE '' @ [CHR 0x27] @ ''%ann%'' @ [CHR 0x27]]"]
      w1
    by (simp add: cols ann_search_parts)
  from w1 w2 w3 show ?thesis by blast
qed

end
